theory Spec2Isabelle
  imports Main "HOL-Library.AList" "HOL-Library.Multiset"
begin

section \<open>Bookstore backend: the cache-aside layer of \<open>src/backend/server.js\<close>\<close>

text \<open>
  The development embeds the request handlers of \<open>server.js\<close>, its three cache
  helpers and its start-up sequence. The two external collaborators, the Redis client
  and the MySQL table \<open>books\<close> of \<open>src/database/init.sql\<close>, are state: a handler
  takes the state and returns its response with the state it leaves.
\<close>

subsection \<open>JSON values as the handlers see them\<close>

text \<open>
  Values are taken in their wire form. Numbers are integers: a price is counted in
  hundredths (the column is \<open>DECIMAL(10, 2)\<close>) and a timestamp in seconds.
\<close>

datatype json =
    JNull
  | JBool bool
  | JNum int
  | JStr string
  | JArr "json list"
  | JObj "(string \<times> json) list"

text \<open>JavaScript truthiness, as used by \<open>if (cached)\<close>.\<close>

fun truthy :: "json \<Rightarrow> bool" where
  "truthy JNull = False"
| "truthy (JBool b) = b"
| "truthy (JNum n) = (n \<noteq> 0)"
| "truthy (JStr s) = (s \<noteq> [])"
| "truthy (JArr xs) = True"
| "truthy (JObj kvs) = True"

definition digit_char :: "nat \<Rightarrow> char" where
  "digit_char d = ''0123456789'' ! d"

text \<open>Decimal rendering of a number inside a template literal or as a property name.\<close>

function show_nat :: "nat \<Rightarrow> string" where
  "show_nat n = (if n < 10 then [digit_char n] else show_nat (n div 10) @ [digit_char (n mod 10)])"
  by pat_completeness auto
termination
  by (relation "measure (\<lambda>n. n)") auto

text \<open>
  The own enumerable properties that the spread \<open>{ ...v }\<close> copies: the members of an
  object, the elements of an array under their indices, the characters of a string
  under theirs, and nothing for the other primitives.
\<close>

fun own_props :: "json \<Rightarrow> (string \<times> json) list" where
  "own_props (JObj kvs) = kvs"
| "own_props (JArr xs) = zip (map show_nat [0..<length xs]) xs"
| "own_props (JStr s) = zip (map show_nat [0..<length s]) (map (\<lambda>c. JStr [c]) s)"
| "own_props v = []"

text \<open>\<open>{ ...cached, fromCache: true }\<close>\<close>

definition tag_fromCache :: "json \<Rightarrow> json" where
  "tag_fromCache cached = JObj (AList.update ''fromCache'' (JBool True) (own_props cached))"

text \<open>
  An object literal sent with \<open>res.json\<close>: a property whose value is \<open>undefined\<close>
  (here \<open>None\<close>) is left out by the serialisation.
\<close>

fun object_literal :: "(string \<times> json option) list \<Rightarrow> (string \<times> json) list" where
  "object_literal [] = []"
| "object_literal ((k, None) # ps) = object_literal ps"
| "object_literal ((k, Some v) # ps) = (k, v) # object_literal ps"

definition is_array :: "json \<Rightarrow> bool" where
  "is_array v = (case v of JArr xs \<Rightarrow> True | _ \<Rightarrow> False)"

definition has_key :: "string \<Rightarrow> json \<Rightarrow> bool" where
  "has_key k v = (case v of JObj kvs \<Rightarrow> map_of kvs k \<noteq> None | _ \<Rightarrow> False)"

definition member :: "string \<Rightarrow> json \<Rightarrow> json option" where
  "member k v = (case v of JObj kvs \<Rightarrow> map_of kvs k | _ \<Rightarrow> None)"

subsection \<open>The table \<open>books\<close>\<close>

text \<open>
  A row has the columns of \<open>init.sql\<close>. \<open>price\<close> and \<open>stock\<close> are nullable,
  the other columns are not.
\<close>

record book_row =
  col_id :: nat
  col_title :: string
  col_author :: string
  col_isbn :: string
  col_price :: "int option"
  col_stock :: "int option"
  created_at :: nat
  updated_at :: nat

text \<open>
  The store: the rows of the table, the \<open>AUTO_INCREMENT\<close> counter, the clock read by
  \<open>CURRENT_TIMESTAMP\<close> and \<open>NOW()\<close>, whether the server answers at all, and two
  things that belong to the MySQL server and not to the repository:
  \<^item> \<open>tie_rank\<close>, the order in which the engine returns rows that the \<open>ORDER BY\<close> of a
    query leaves tied: of two such rows the one whose identifier has the smaller rank
    comes first. MySQL leaves that order unspecified, so every rank is possible;
  \<^item> \<open>unicode_ci\<close>, the sort key of \<open>utf8mb4_unicode_ci\<close>, the collation of the table:
    two texts are equal for the \<open>UNIQUE\<close> index on \<open>isbn\<close> when their keys are equal.
  The server is MySQL 8.0 in its default strict SQL mode.
\<close>

record store =
  rows :: "book_row list"
  next_id :: nat
  now :: nat
  up :: bool
  tie_rank :: "nat \<Rightarrow> nat"
  unicode_ci :: "string \<Rightarrow> string"

datatype db_error =
    ER_DUP_ENTRY
  | ER_BAD_NULL_ERROR
  | ER_DATA_TOO_LONG
  | ER_WARN_DATA_OUT_OF_RANGE
  | ECONNREFUSED

text \<open>\<open>ORDER BY created_at DESC\<close>: by \<open>created_at\<close>, descending, and among rows of equal
  \<open>created_at\<close> in the order the engine chooses.\<close>

definition order_by_created_at_desc :: "store \<Rightarrow> book_row list" where
  "order_by_created_at_desc s =
     sort_key (\<lambda>r. - int (created_at r)) (sort_key (\<lambda>r. tie_rank s (col_id r)) (rows s))"

text \<open>\<open>SELECT * FROM books ORDER BY created_at DESC\<close>\<close>

definition select_all_books :: "store \<Rightarrow> db_error + book_row list" where
  "select_all_books s =
     (if \<not> up s then Inl ECONNREFUSED
      else Inr (order_by_created_at_desc s))"

text \<open>\<open>SELECT * FROM books WHERE id = ?\<close>\<close>

definition select_book :: "store \<Rightarrow> nat \<Rightarrow> db_error + book_row list" where
  "select_book s i =
     (if \<not> up s then Inl ECONNREFUSED
      else Inr (filter (\<lambda>r. col_id r = i) (rows s)))"

text \<open>
  Storing a value in a column, in strict mode. A \<open>VARCHAR(n)\<close> takes a text of at most
  \<open>n\<close> characters as it is; of a longer one it cuts the excess when that is all spaces
  and rejects the statement otherwise. \<open>DECIMAL(10, 2)\<close> holds up to 99999999.99 in
  absolute value (prices are counted in hundredths) and \<open>INT\<close> is the signed 32-bit
  range. Texts are taken as ASCII, one \<open>char\<close> a character.
\<close>

definition rstrip :: "string \<Rightarrow> string" where
  "rstrip s = rev (dropWhile (\<lambda>c. c = CHR '' '') (rev s))"

definition varchar :: "nat \<Rightarrow> string \<Rightarrow> db_error + string" where
  "varchar n s =
     (if length s \<le> n then Inr s
      else if length (rstrip s) \<le> n then Inr (take n s)
      else Inl ER_DATA_TOO_LONG)"

text \<open>\<open>VARCHAR(n) NOT NULL\<close>\<close>

definition text_col :: "nat \<Rightarrow> string option \<Rightarrow> db_error + string" where
  "text_col n v = (case v of None \<Rightarrow> Inl ER_BAD_NULL_ERROR | Some s \<Rightarrow> varchar n s)"

text \<open>\<open>DECIMAL(10, 2)\<close>\<close>

definition price_col :: "int option \<Rightarrow> db_error + int option" where
  "price_col v =
     (case v of
        None \<Rightarrow> Inr None
      | Some p \<Rightarrow> if - 9999999999 \<le> p \<and> p \<le> 9999999999 then Inr (Some p)
                  else Inl ER_WARN_DATA_OUT_OF_RANGE)"

text \<open>\<open>INT\<close>\<close>

definition stock_col :: "int option \<Rightarrow> db_error + int option" where
  "stock_col v =
     (case v of
        None \<Rightarrow> Inr None
      | Some k \<Rightarrow> if - 2147483648 \<le> k \<and> k \<le> 2147483647 then Inr (Some k)
                  else Inl ER_WARN_DATA_OUT_OF_RANGE)"

text \<open>The five values of a statement, stored in the order the statement lists them; the
  first that its column refuses ends the statement.\<close>

definition row_values ::
  "string option \<Rightarrow> string option \<Rightarrow> string option \<Rightarrow> int option \<Rightarrow> int option \<Rightarrow>
   db_error + (string \<times> string \<times> string \<times> int option \<times> int option)" where
  "row_values t a i p k =
     (case text_col 255 t of Inl e \<Rightarrow> Inl e | Inr t' \<Rightarrow>
      case text_col 255 a of Inl e \<Rightarrow> Inl e | Inr a' \<Rightarrow>
      case text_col 20 i of Inl e \<Rightarrow> Inl e | Inr i' \<Rightarrow>
      case price_col p of Inl e \<Rightarrow> Inl e | Inr p' \<Rightarrow>
      case stock_col k of Inl e \<Rightarrow> Inl e | Inr k' \<Rightarrow>
      Inr (t', a', i', p', k'))"

text \<open>The \<open>UNIQUE\<close> index on \<open>isbn\<close>: is the text, under the collation, the \<open>isbn\<close> of one
  of the rows?\<close>

definition isbn_taken :: "store \<Rightarrow> string \<Rightarrow> book_row list \<Rightarrow> bool" where
  "isbn_taken s i rs = (unicode_ci s i \<in> set (map (\<lambda>r. unicode_ci s (col_isbn r)) rs))"

text \<open>\<open>INSERT INTO books (title, author, isbn, price, stock) VALUES (?, ?, ?, ?, ?)\<close>:
  the error or \<open>insertId\<close>, and the store it leaves. An \<open>undefined\<close> parameter is sent
  as \<open>NULL\<close>. An insert that the \<open>UNIQUE\<close> index refuses has already taken its
  \<open>AUTO_INCREMENT\<close> value, which is not given back.\<close>

definition insert_book :: "store \<Rightarrow> string option \<Rightarrow> string option \<Rightarrow> string option \<Rightarrow> int \<Rightarrow> int \<Rightarrow> (db_error + nat) \<times> store" where
  "insert_book s t a i p k =
     (if \<not> up s then (Inl ECONNREFUSED, s)
      else (case row_values t a i (Some p) (Some k) of
              Inl e \<Rightarrow> (Inl e, s)
            | Inr (t', a', i', p', k') \<Rightarrow>
                if isbn_taken s i' (rows s)
                then (Inl ER_DUP_ENTRY, s\<lparr>next_id := Suc (next_id s)\<rparr>)
                else (Inr (next_id s),
                      s\<lparr>rows := rows s @
                           [\<lparr>col_id = next_id s, col_title = t', col_author = a',
                             col_isbn = i', col_price = p', col_stock = k',
                             created_at = now s, updated_at = now s\<rparr>],
                        next_id := Suc (next_id s)\<rparr>)))"

text \<open>\<open>UPDATE books SET title = ?, author = ?, isbn = ?, price = ?, stock = ?,
  updated_at = NOW() WHERE id = ?\<close>: returns \<open>affectedRows\<close>, the number of rows
  matched. The values are stored, and checked, only into a row that matches.\<close>

definition update_book :: "store \<Rightarrow> nat \<Rightarrow> string option \<Rightarrow> string option \<Rightarrow> string option \<Rightarrow> int option \<Rightarrow> int option \<Rightarrow> db_error + (nat \<times> store)" where
  "update_book s n t a i p k =
     (if \<not> up s then Inl ECONNREFUSED
      else if filter (\<lambda>r. col_id r = n) (rows s) = [] then Inr (0, s)
      else (case row_values t a i p k of
              Inl e \<Rightarrow> Inl e
            | Inr (t', a', i', p', k') \<Rightarrow>
                if isbn_taken s i' (filter (\<lambda>r. col_id r \<noteq> n) (rows s))
                then Inl ER_DUP_ENTRY
                else Inr (length (filter (\<lambda>r. col_id r = n) (rows s)),
                          s\<lparr>rows := map (\<lambda>r. if col_id r = n
                                then r\<lparr>col_title := t', col_author := a', col_isbn := i',
                                       col_price := p', col_stock := k', updated_at := now s\<rparr>
                                else r) (rows s)\<rparr>)))"

text \<open>\<open>DELETE FROM books WHERE id = ?\<close>: returns \<open>affectedRows\<close>.\<close>

definition delete_book :: "store \<Rightarrow> nat \<Rightarrow> db_error + (nat \<times> store)" where
  "delete_book s n =
     (if \<not> up s then Inl ECONNREFUSED
      else Inr (length (filter (\<lambda>r. col_id r = n) (rows s)),
                s\<lparr>rows := filter (\<lambda>r. col_id r \<noteq> n) (rows s)\<rparr>))"

text \<open>A row as it is serialised.\<close>

definition opt_num :: "int option \<Rightarrow> json" where
  "opt_num v = (case v of None \<Rightarrow> JNull | Some n \<Rightarrow> JNum n)"

definition row_json :: "book_row \<Rightarrow> json" where
  "row_json r = JObj
     [(''id'', JNum (int (col_id r))),
      (''title'', JStr (col_title r)),
      (''author'', JStr (col_author r)),
      (''isbn'', JStr (col_isbn r)),
      (''price'', opt_num (col_price r)),
      (''stock'', opt_num (col_stock r)),
      (''created_at'', JNum (int (created_at r))),
      (''updated_at'', JNum (int (updated_at r)))]"

subsection \<open>The Redis client\<close>

text \<open>
  \<open>isOpen\<close> is \<open>redisClient?.isOpen\<close>; \<open>faults\<close> are the commands the server
  currently rejects; \<open>entries\<close> maps a key to its time-to-live and its value, the
  parsed form of the stored text (\<open>JSON.parse\<close> undoes \<open>JSON.stringify\<close>).
  \<open>CACHE_TTL\<close> comes from the process configuration. A command sent through an
  open client is answered or rejected by the server. (While the server cannot be
  reached the client stays open and holds the command back, which then does not
  settle; start-up below meets that case in \<open>initRedis\<close>.)
\<close>

datatype redis_command = GET | SETEX | KEYS | DEL

datatype cache_error = CacheError

record cache =
  isOpen :: bool
  faults :: "redis_command set"
  entries :: "(string \<times> nat \<times> json) list"
  CACHE_TTL :: nat

record state =
  pool :: store
  redisClient :: cache
  console :: "string list"

text \<open>Glob matching of \<open>KEYS\<close>, for patterns built from literal characters and \<open>*\<close>.\<close>

fun glob_match :: "string \<Rightarrow> string \<Rightarrow> bool" where
  "glob_match [] s = (s = [])"
| "glob_match (p # ps) [] = (p = CHR ''*'' \<and> glob_match ps [])"
| "glob_match (p # ps) (c # cs) =
     (if p = CHR ''*'' then glob_match ps (c # cs) \<or> glob_match (p # ps) cs
      else p = c \<and> glob_match ps cs)"

definition redis_get :: "cache \<Rightarrow> string \<Rightarrow> cache_error + json option" where
  "redis_get c key =
     (if GET \<in> faults c then Inl CacheError
      else Inr (map_option snd (map_of (entries c) key)))"

definition redis_setEx :: "cache \<Rightarrow> string \<Rightarrow> nat \<Rightarrow> json \<Rightarrow> cache_error + cache" where
  "redis_setEx c key ttl v =
     (if SETEX \<in> faults c then Inl CacheError
      else Inr (c\<lparr>entries := AList.update key (ttl, v) (entries c)\<rparr>))"

definition redis_keys :: "cache \<Rightarrow> string \<Rightarrow> cache_error + string list" where
  "redis_keys c pattern =
     (if KEYS \<in> faults c then Inl CacheError
      else Inr (filter (glob_match pattern) (map fst (entries c))))"

definition redis_del :: "cache \<Rightarrow> string list \<Rightarrow> cache_error + cache" where
  "redis_del c ks =
     (if DEL \<in> faults c then Inl CacheError
      else Inr (c\<lparr>entries := filter (\<lambda>e. fst e \<notin> set ks) (entries c)\<rparr>))"

definition log :: "string \<Rightarrow> state \<Rightarrow> state" where
  "log line st = st\<lparr>console := console st @ [line]\<rparr>"

subsection \<open>Cache helper functions\<close>

definition getFromCache :: "state \<Rightarrow> string \<Rightarrow> json \<times> state" where
  "getFromCache st key =
     (if \<not> isOpen (redisClient st) then (JNull, st)
      else (case redis_get (redisClient st) key of
              Inl e \<Rightarrow> (JNull, log ''Cache get error'' st)
            | Inr None \<Rightarrow> (JNull, st)
            | Inr (Some v) \<Rightarrow> (v, st)))"

definition setToCache :: "state \<Rightarrow> string \<Rightarrow> json \<Rightarrow> state" where
  "setToCache st key data =
     (if \<not> isOpen (redisClient st) then st
      else (case redis_setEx (redisClient st) key (CACHE_TTL (redisClient st)) data of
              Inl e \<Rightarrow> log ''Cache set error'' st
            | Inr c \<Rightarrow> st\<lparr>redisClient := c\<rparr>))"

definition invalidateCache :: "state \<Rightarrow> state" where
  "invalidateCache st =
     (if \<not> isOpen (redisClient st) then st
      else (case redis_keys (redisClient st) ''books:*'' of
              Inl e \<Rightarrow> log ''Cache invalidate error'' st
            | Inr keys \<Rightarrow>
                (case (if length keys > 0 then redis_del (redisClient st) keys
                       else Inr (redisClient st)) of
                   Inl e \<Rightarrow> log ''Cache invalidate error'' st
                 | Inr c1 \<Rightarrow>
                     (case redis_del c1 [''books:all''] of
                        Inl e \<Rightarrow> log ''Cache invalidate error'' (st\<lparr>redisClient := c1\<rparr>)
                      | Inr c2 \<Rightarrow> st\<lparr>redisClient := c2\<rparr>))))"

subsection \<open>Book API routes\<close>

record response =
  status :: nat
  body :: json

definition error_body :: "string \<Rightarrow> json" where
  "error_body msg = JObj [(''error'', JStr msg)]"

definition send :: "nat \<Rightarrow> json \<Rightarrow> response" where
  "send code v = \<lparr>status = code, body = v\<rparr>"

text \<open>\<open>GET /api/books\<close>\<close>

definition get_books :: "state \<Rightarrow> response \<times> state" where
  "get_books st =
     (let (cached, st1) = getFromCache st ''books:all'' in
      if truthy cached then (send 200 (tag_fromCache cached), st1)
      else (case select_all_books (pool st1) of
              Inl e \<Rightarrow> (send 500 (error_body ''Failed to fetch books''),
                        log ''Error fetching books'' st1)
            | Inr rs \<Rightarrow>
                (send 200 (JArr (map row_json rs)),
                 setToCache st1 ''books:all'' (JArr (map row_json rs)))))"

text \<open>The item key \<open>`books:${req.params.id}`\<close>\<close>

definition cacheKey :: "nat \<Rightarrow> string" where
  "cacheKey n = ''books:'' @ show_nat n"

text \<open>\<open>GET /api/books/:id\<close>. The route parameter is taken as the identifier it
  denotes.\<close>

definition get_book :: "state \<Rightarrow> nat \<Rightarrow> response \<times> state" where
  "get_book st n =
     (let (cached, st1) = getFromCache st (cacheKey n) in
      if truthy cached then (send 200 (tag_fromCache cached), st1)
      else (case select_book (pool st1) n of
              Inl e \<Rightarrow> (send 500 (error_body ''Failed to fetch book''),
                        log ''Error fetching book'' st1)
            | Inr [] \<Rightarrow> (send 404 (error_body ''Book not found''), st1)
            | Inr (r # rs) \<Rightarrow>
                (send 200 (row_json r), setToCache st1 (cacheKey n) (row_json r))))"

text \<open>The request body of the two mutations, at the types of the interface: text for
  \<open>title\<close>, \<open>author\<close> and \<open>isbn\<close>, numbers for \<open>price\<close> and \<open>stock\<close>; \<open>None\<close>
  is a property that is absent.\<close>

record book_body =
  title :: "string option"
  author :: "string option"
  isbn :: "string option"
  price :: "int option"
  stock :: "int option"

text \<open>\<open>!s\<close> on a text property, and \<open>n || 0\<close> on a numeric one.\<close>

definition falsy :: "string option \<Rightarrow> bool" where
  "falsy s = (case s of None \<Rightarrow> True | Some t \<Rightarrow> t = [])"

definition or_zero :: "int option \<Rightarrow> int" where
  "or_zero n = (case n of None \<Rightarrow> 0 | Some v \<Rightarrow> if v = 0 then 0 else v)"

definition echo :: "nat \<Rightarrow> book_body \<Rightarrow> string \<Rightarrow> json" where
  "echo n b msg = JObj (object_literal
     [(''id'', Some (JNum (int n))),
      (''title'', map_option JStr (title b)),
      (''author'', map_option JStr (author b)),
      (''isbn'', map_option JStr (isbn b)),
      (''price'', map_option JNum (price b)),
      (''stock'', map_option JNum (stock b)),
      (''message'', Some (JStr msg))])"

text \<open>\<open>POST /api/books\<close>\<close>

definition post_books :: "state \<Rightarrow> book_body \<Rightarrow> response \<times> state" where
  "post_books st b =
     (if falsy (title b) \<or> falsy (author b) \<or> falsy (isbn b)
      then (send 400 (error_body ''Title, author, and ISBN are required''), st)
      else (case insert_book (pool st) (title b) (author b) (isbn b)
                   (or_zero (price b)) (or_zero (stock b)) of
              (Inl e, s') \<Rightarrow>
                (if e = ER_DUP_ENTRY
                 then send 409 (error_body ''Book with this ISBN already exists'')
                 else send 500 (error_body ''Failed to create book''),
                 log ''Error creating book'' (st\<lparr>pool := s'\<rparr>))
            | (Inr insertId, s') \<Rightarrow>
                (send 201 (echo insertId b ''Book created successfully''),
                 invalidateCache (st\<lparr>pool := s'\<rparr>))))"

text \<open>\<open>PUT /api/books/:id\<close>\<close>

definition put_book :: "state \<Rightarrow> nat \<Rightarrow> book_body \<Rightarrow> response \<times> state" where
  "put_book st n b =
     (case update_book (pool st) n (title b) (author b) (isbn b) (price b) (stock b) of
        Inl e \<Rightarrow> (send 500 (error_body ''Failed to update book''),
                  log ''Error updating book'' st)
      | Inr (affectedRows, s') \<Rightarrow>
          if affectedRows = 0 then (send 404 (error_body ''Book not found''), st\<lparr>pool := s'\<rparr>)
          else (send 200 (echo n b ''Book updated successfully''),
                invalidateCache (st\<lparr>pool := s'\<rparr>)))"

text \<open>\<open>DELETE /api/books/:id\<close>\<close>

definition delete_books :: "state \<Rightarrow> nat \<Rightarrow> response \<times> state" where
  "delete_books st n =
     (case delete_book (pool st) n of
        Inl e \<Rightarrow> (send 500 (error_body ''Failed to delete book''),
                  log ''Error deleting book'' st)
      | Inr (affectedRows, s') \<Rightarrow>
          if affectedRows = 0 then (send 404 (error_body ''Book not found''), st\<lparr>pool := s'\<rparr>)
          else (send 200 (JObj [(''message'', JStr ''Book deleted successfully'')]),
                invalidateCache (st\<lparr>pool := s'\<rparr>)))"

subsection \<open>Start-up\<close>

text \<open>
  What one call of \<open>initDatabase\<close> meets: \<open>mysql.createPool\<close> throws, or the pool
  is created and \<open>pool.getConnection()\<close> rejects, or it resolves.
\<close>

datatype db_attempt = CreatePoolThrows | ConnectionFails | Connected

text \<open>
  \<open>pool_assigned\<close> is the truthiness of the global \<open>pool\<close>. \<open>verified\<close> records
  that some call of \<open>initDatabase\<close> returned \<open>true\<close>; the code keeps that only in the
  loop's local \<open>connected\<close>. \<open>attempts\<close> counts the calls and \<open>waited_ms\<close> adds
  up the \<open>setTimeout\<close> delays.
\<close>

record boot =
  pool_assigned :: bool
  verified :: bool
  attempts :: nat
  waited_ms :: nat

definition initDatabase :: "db_attempt \<Rightarrow> boot \<Rightarrow> bool \<times> boot" where
  "initDatabase a b =
     (case a of
        CreatePoolThrows \<Rightarrow> (False, b\<lparr>attempts := Suc (attempts b)\<rparr>)
      | ConnectionFails \<Rightarrow> (False, b\<lparr>pool_assigned := True, attempts := Suc (attempts b)\<rparr>)
      | Connected \<Rightarrow> (True, b\<lparr>pool_assigned := True, attempts := Suc (attempts b)\<rparr>))"

text \<open>The \<open>while (retries > 0)\<close> loop; \<open>env k\<close> is what attempt number \<open>k\<close> meets.\<close>

fun connect_loop :: "(nat \<Rightarrow> db_attempt) \<Rightarrow> nat \<Rightarrow> boot \<Rightarrow> boot" where
  "connect_loop env 0 b = b"
| "connect_loop env (Suc retries) b =
     (case initDatabase (env (attempts b)) b of
        (True, b1) \<Rightarrow> b1\<lparr>verified := True\<rparr>
      | (False, b1) \<Rightarrow> connect_loop env retries (b1\<lparr>waited_ms := waited_ms b1 + 5000\<rparr>))"

text \<open>
  What \<open>redisClient.connect()\<close> meets in \<open>initRedis\<close>: it resolves, it rejects, or,
  with the Redis server unreachable, it never settles (the client keeps retrying
  the connection).
\<close>

datatype redis_attempt = RedisConnects | RedisRejects | RedisNeverSettles

text \<open>\<open>initRedis\<close>: the value it returns, if it returns.\<close>

definition initRedis :: "redis_attempt \<Rightarrow> bool option" where
  "initRedis r =
     (case r of
        RedisConnects \<Rightarrow> Some True
      | RedisRejects \<Rightarrow> Some False
      | RedisNeverSettles \<Rightarrow> None)"

text \<open>How \<open>startServer\<close> ends: the process exits, or it listens (with the cache client
  open or not), or it stays in \<open>await initRedis()\<close> and never reaches \<open>app.listen\<close>.\<close>

datatype server = Exited nat | Listening bool | AwaitingRedis

text \<open>\<open>startServer\<close>\<close>

definition startServer :: "(nat \<Rightarrow> db_attempt) \<Rightarrow> redis_attempt \<Rightarrow> server \<times> boot" where
  "startServer env redis =
     (let b = connect_loop env 5
                \<lparr>pool_assigned = False, verified = False, attempts = 0, waited_ms = 0\<rparr>
      in if \<not> pool_assigned b then (Exited 1, b)
         else (case initRedis redis of
                 None \<Rightarrow> (AwaitingRedis, b)
               | Some ok \<Rightarrow> (Listening ok, b)))"

subsection \<open>The scan order of the specification\<close>

text \<open>
  The order in the words of the specification: by creation time, descending; ties
  broken by identifier, descending.
\<close>

definition spec_scan_order :: "book_row list \<Rightarrow> bool" where
  "spec_scan_order rs =
     sorted_wrt (\<lambda>a b. created_at b < created_at a
                      \<or> (created_at a = created_at b \<and> col_id b \<le> col_id a)) rs"

subsection \<open>Sample states\<close>

definition book_A :: book_row where
  "book_A = \<lparr>col_id = 1, col_title = ''A'', col_author = ''B'', col_isbn = ''111'',
              col_price = Some 0, col_stock = Some 0, created_at = 0, updated_at = 0\<rparr>"

definition book_C :: book_row where
  "book_C = \<lparr>col_id = 2, col_title = ''C'', col_author = ''D'', col_isbn = ''222'',
              col_price = Some 4999, col_stock = Some 25, created_at = 0, updated_at = 0\<rparr>"

text \<open>A stand-in for the collation on the ASCII letters and digits of the samples: it
  folds the case of letters and drops trailing spaces.\<close>

definition to_upper :: "char \<Rightarrow> char" where
  "to_upper c =
     (case map_of (zip ''abcdefghijklmnopqrstuvwxyz'' ''ABCDEFGHIJKLMNOPQRSTUVWXYZ'') c of
        None \<Rightarrow> c
      | Some u \<Rightarrow> u)"

definition ascii_ci :: "string \<Rightarrow> string" where
  "ascii_ci s = map to_upper (rstrip s)"

text \<open>Two books created in the same second; the engine returns tied rows smaller
  identifier first.\<close>

definition two_books :: store where
  "two_books = \<lparr>rows = [book_A, book_C], next_id = 3, now = 7, up = True,
                 tie_rank = (\<lambda>i. i), unicode_ci = ascii_ci\<rparr>"

definition healthy_cache :: "(string \<times> nat \<times> json) list \<Rightarrow> cache" where
  "healthy_cache es = \<lparr>isOpen = True, faults = {}, entries = es, CACHE_TTL = 300\<rparr>"

definition faulty_cache :: "redis_command set \<Rightarrow> (string \<times> nat \<times> json) list \<Rightarrow> cache" where
  "faulty_cache fs es = \<lparr>isOpen = True, faults = fs, entries = es, CACHE_TTL = 300\<rparr>"

definition stale_entries :: "(string \<times> nat \<times> json) list" where
  "stale_entries =
     [(''books:all'', 300, JArr [row_json book_A, row_json book_C]),
      (''books:1'', 300, row_json book_A),
      (''session:9'', 300, JStr ''x'')]"

definition serving :: "store \<Rightarrow> cache \<Rightarrow> state" where
  "serving s c = \<lparr>pool = s, redisClient = c, console = []\<rparr>"

definition new_book :: book_body where
  "new_book = \<lparr>title = Some ''E'', author = Some ''F'', isbn = Some ''333'',
                price = None, stock = None\<rparr>"

section \<open>Properties\<close>

lemmas sample_defs =
  book_A_def book_C_def two_books_def healthy_cache_def faulty_cache_def
  serving_def new_book_def stale_entries_def

lemmas column_defs = row_values_def text_col_def varchar_def price_col_def stock_col_def

lemmas redis_defs = redis_get_def redis_setEx_def redis_keys_def redis_del_def

lemmas cache_defs = getFromCache_def setToCache_def invalidateCache_def log_def

lemmas store_defs =
  order_by_created_at_desc_def select_all_books_def select_book_def insert_book_def
  update_book_def delete_book_def isbn_taken_def

subsection \<open>The shape of a cache hit on the collection\<close>

lemma tag_fromCache_not_array: "\<not> is_array (tag_fromCache v)"
  by (simp add: tag_fromCache_def is_array_def)

lemma get_books_hit_not_array:
  assumes "truthy (fst (getFromCache st ''books:all''))"
  shows "\<not> is_array (body (fst (get_books st)))"
proof -
  obtain c st1 where "getFromCache st ''books:all'' = (c, st1)"
    by (cases "getFromCache st ''books:all''")
  with assms show ?thesis
    by (simp add: get_books_def send_def tag_fromCache_not_array)
qed

text \<open>
  C1. With the collection key holding the one-record array \<open>[book_A]\<close>,
  \<open>GET /api/books\<close> answers 200 with the object \<open>{"0": book_A, "fromCache": true}\<close>:
  the spread of an array into an object literal yields its indices as property names.
  The body is not an array, whereas the same request on an empty cache answers with
  the array of records.
\<close>

theorem get_books_hit_is_object:
  "get_books (serving two_books (healthy_cache [(''books:all'', 300, JArr [row_json book_A])]))
     = (send 200 (JObj [(''0'', row_json book_A), (''fromCache'', JBool True)]),
        serving two_books (healthy_cache [(''books:all'', 300, JArr [row_json book_A])]))
   \<and> \<not> is_array (body (fst (get_books
          (serving two_books (healthy_cache [(''books:all'', 300, JArr [row_json book_A])])))))
   \<and> is_array (body (fst (get_books (serving two_books (healthy_cache [])))))"
proof -
  have hit: "get_books (serving two_books (healthy_cache [(''books:all'', 300, JArr [row_json book_A])]))
     = (send 200 (JObj [(''0'', row_json book_A), (''fromCache'', JBool True)]),
        serving two_books (healthy_cache [(''books:all'', 300, JArr [row_json book_A])]))"
    by (simp add: get_books_def sample_defs cache_defs redis_defs tag_fromCache_def
        digit_char_def)
  have miss: "is_array (body (fst (get_books (serving two_books (healthy_cache [])))))"
    by (simp add: get_books_def sample_defs cache_defs redis_defs store_defs is_array_def
        send_def)
  from hit miss show ?thesis
    by (simp add: send_def is_array_def)
qed

subsection \<open>Start-up\<close>

lemma initDatabase_attempts: "attempts (snd (initDatabase a b)) = Suc (attempts b)"
  by (cases a) (simp_all add: initDatabase_def)

lemma initDatabase_waited: "waited_ms (snd (initDatabase a b)) = waited_ms b"
  by (cases a) (simp_all add: initDatabase_def)

text \<open>The retry is bounded, and each failed attempt is followed by the same delay.\<close>

lemma connect_loop_bounded:
  "attempts (connect_loop env n b) \<le> attempts b + n
   \<and> waited_ms (connect_loop env n b) \<le> waited_ms b + 5000 * n"
proof (induction n arbitrary: b)
  case 0
  show ?case by simp
next
  case (Suc n)
  obtain ok b1 where r: "initDatabase (env (attempts b)) b = (ok, b1)"
    by (cases "initDatabase (env (attempts b)) b")
  have a: "attempts b1 = Suc (attempts b)" and w: "waited_ms b1 = waited_ms b"
    using initDatabase_attempts [of "env (attempts b)" b]
      initDatabase_waited [of "env (attempts b)" b] r by simp_all
  show ?case
  proof (cases ok)
    case True
    with r a w show ?thesis by simp
  next
    case False
    with r a w Suc.IH [of "b1\<lparr>waited_ms := waited_ms b1 + 5000\<rparr>"] show ?thesis by simp
  qed
qed

text \<open>
  C2. When every \<open>pool.getConnection()\<close> of the five attempts rejects, \<open>startServer\<close>
  still reaches \<open>app.listen\<close>: \<open>initDatabase\<close> assigns \<open>pool\<close> before it tests the
  connection, so the final \<open>if (!pool)\<close> does not fire. The server listens after five
  attempts and 25 seconds of waiting, the store never verified.
\<close>

theorem startServer_listens_unverified:
  "startServer (\<lambda>k. ConnectionFails) RedisConnects =
     (Listening True,
      \<lparr>pool_assigned = True, verified = False, attempts = 5, waited_ms = 25000\<rparr>)"
proof -
  have five: "(5::nat) = Suc (Suc (Suc (Suc (Suc 0))))" by simp
  show ?thesis
    unfolding startServer_def five by (simp add: initDatabase_def initRedis_def)
qed

subsection \<open>Validation of the mutations\<close>


lemma put_book_never_400: "status (fst (put_book st n b)) \<noteq> 400"
  by (auto simp: put_book_def send_def split: sum.splits prod.splits)

text \<open>
  C5. \<open>PUT /api/books/1\<close> with a body that has no \<open>title\<close>, on a store holding book 1,
  answers 500: the handler validates nothing, the \<open>UPDATE\<close> sends \<open>NULL\<close> for the title
  and the store rejects it. \<open>POST /api/books\<close> with the same body answers 400.
\<close>

theorem put_book_missing_title_500:
  "put_book (serving two_books (healthy_cache [])) 1 (new_book\<lparr>title := None\<rparr>)
     = (send 500 (error_body ''Failed to update book''),
        log ''Error updating book'' (serving two_books (healthy_cache [])))
   \<and> status (fst (put_book (serving two_books (healthy_cache [])) 1 (new_book\<lparr>title := None\<rparr>))) = 500
   \<and> status (fst (post_books (serving two_books (healthy_cache [])) (new_book\<lparr>title := None\<rparr>))) = 400"
  by (simp add: put_book_def post_books_def sample_defs store_defs column_defs send_def
      falsy_def)

subsection \<open>The cache helpers leave the store alone\<close>

lemma getFromCache_snd:
  "snd (getFromCache st k) = st \<or> snd (getFromCache st k) = log ''Cache get error'' st"
  by (simp add: getFromCache_def split: sum.splits option.splits)

lemma pool_getFromCache [simp]: "pool (snd (getFromCache st k)) = pool st"
  using getFromCache_snd [of st k] by (auto simp: log_def)

lemma redisClient_getFromCache [simp]: "redisClient (snd (getFromCache st k)) = redisClient st"
  using getFromCache_snd [of st k] by (auto simp: log_def)

lemma pool_setToCache [simp]: "pool (setToCache st k v) = pool st"
  by (simp add: setToCache_def log_def split: sum.splits)

lemma pool_invalidateCache [simp]: "pool (invalidateCache st) = pool st"
  by (simp add: invalidateCache_def log_def split: sum.splits)

subsection \<open>The collection scan\<close>

lemma get_books_on_miss:
  assumes "\<not> truthy (fst (getFromCache st ''books:all''))" and "up (pool st)"
  shows "get_books st =
    (send 200 (JArr (map row_json (order_by_created_at_desc (pool st)))),
     setToCache (snd (getFromCache st ''books:all'')) ''books:all''
       (JArr (map row_json (order_by_created_at_desc (pool st)))))"
proof -
  obtain c st1 where g: "getFromCache st ''books:all'' = (c, st1)"
    by (cases "getFromCache st ''books:all''")
  then have "pool st1 = pool st"
    using pool_getFromCache [of st "''books:all''"] by simp
  with g assms show ?thesis
    by (simp add: get_books_def select_all_books_def)
qed

lemma newest_first_sorted:
  assumes "sorted (map (\<lambda>r. - int (created_at r)) rs)"
  shows "sorted_wrt (\<lambda>a b. created_at b \<le> created_at a) rs"
  using assms by (simp add: sorted_map sorted_wrt_iff_nth_less)

lemma sorted_newest_first:
  assumes "sorted_wrt (\<lambda>a b. created_at b \<le> created_at a) rs"
  shows "sorted (map (\<lambda>r. - int (created_at r)) rs)"
  using assms by (simp add: sorted_map sorted_wrt_iff_nth_less)

lemma sorted_order_by:
  "sorted_wrt (\<lambda>a b. created_at b \<le> created_at a) (order_by_created_at_desc s)"
  unfolding order_by_created_at_desc_def
  by (rule newest_first_sorted) (rule sorted_sort_key)

lemma mset_order_by: "mset (order_by_created_at_desc s) = mset (rows s)"
  by (simp add: order_by_created_at_desc_def)

lemma set_order_by: "set (order_by_created_at_desc s) = set (rows s)"
  by (simp add: order_by_created_at_desc_def)

text \<open>
  The query fixes nothing about ties: every order of the rows that is descending in
  \<open>created_at\<close> is the result under some choice of the engine.
\<close>

lemma position_in_list:
  assumes "distinct (map col_id res)" and "i < length res"
  shows "length (takeWhile (\<lambda>r. col_id r \<noteq> col_id (res ! i)) res) = i"
proof -
  have "takeWhile (\<lambda>r. col_id r \<noteq> col_id (res ! i)) res = take i res"
  proof (rule takeWhile_eq_take_P_nth)
    fix j
    assume "j < i" and "j < length res"
    with assms show "col_id (res ! j) \<noteq> col_id (res ! i)"
      using nth_eq_iff_index_eq [of "map col_id res" j i] by simp
  next
    show "\<not> col_id (res ! i) \<noteq> col_id (res ! i)" by simp
  qed
  with assms(2) show ?thesis by simp
qed

lemma copies_of_one:
  "filter (\<lambda>x. k = x) xs = replicate (length (filter (\<lambda>x. k = x) xs)) k"
  by (induction xs) auto

lemma every_tie_order_is_possible:
  assumes m: "mset res = mset (rows s)"
    and srt: "sorted_wrt (\<lambda>a b. created_at b \<le> created_at a) res"
    and d: "distinct (map col_id (rows s))"
  shows "\<exists>f. order_by_created_at_desc (s\<lparr>tie_rank := f\<rparr>) = res"
proof -
  define f where "f i = length (takeWhile (\<lambda>r. col_id r \<noteq> i) res)" for i
  have "mset (map col_id res) = mset (map col_id (rows s))"
    using m by (metis mset_map)
  with d have dres: "distinct (map col_id res)"
    using mset_eq_imp_distinct_iff by blast
  have pos: "map (\<lambda>r. f (col_id r)) res = [0..<length res]"
    by (rule nth_equalityI) (simp_all add: f_def position_in_list [OF dres])
  then have srt_f: "sorted (map (\<lambda>r. f (col_id r)) res)"
    by simp
  have "distinct (map (\<lambda>r. f (col_id r)) res)"
    by (simp add: pos)
  then have inj: "inj_on (\<lambda>r. f (col_id r)) (set res)"
    by (simp add: distinct_map)
  have sets: "set (rows s) = set res"
    using m by (metis set_mset_mset)
  have "sort_key (\<lambda>r. f (col_id r)) (rows s) = res"
  proof (rule properties_for_sort_key [OF m _ srt_f])
    fix k
    assume k: "k \<in> set res"
    have "filter (\<lambda>x. f (col_id k) = f (col_id x)) res = filter (\<lambda>x. k = x) res"
      using inj k by (intro filter_cong refl) (auto dest: inj_onD)
    moreover have "filter (\<lambda>x. f (col_id k) = f (col_id x)) (rows s) = filter (\<lambda>x. k = x) (rows s)"
      using inj k sets by (intro filter_cong refl) (auto dest: inj_onD)
    moreover have "filter (\<lambda>x. k = x) res = filter (\<lambda>x. k = x) (rows s)"
    proof -
      have "mset (filter (\<lambda>x. k = x) res) = mset (filter (\<lambda>x. k = x) (rows s))"
        using m by simp
      then have "length (filter (\<lambda>x. k = x) res) = length (filter (\<lambda>x. k = x) (rows s))"
        by (rule mset_eq_length)
      then show ?thesis
        using copies_of_one [of k res] copies_of_one [of k "rows s"] by simp
    qed
    ultimately show "filter (\<lambda>x. f (col_id k) = f (col_id x)) res
        = filter (\<lambda>x. f (col_id k) = f (col_id x)) (rows s)"
      by simp
  qed
  moreover have "sort_key (\<lambda>r. - int (created_at r)) res = res"
    by (rule sort_key_id_if_sorted) (rule sorted_newest_first [OF srt])
  ultimately have "order_by_created_at_desc (s\<lparr>tie_rank := f\<rparr>) = res"
    by (simp add: order_by_created_at_desc_def)
  then show ?thesis by blast
qed

text \<open>
  C3 (amended). On a cache miss with the store reachable, \<open>GET /api/books\<close> answers 200
  with all the records of the store, by creation time descending. The order among
  records of equal creation time is not fixed by the query: whichever order of the
  records is descending in creation time, the store may return it (identifiers being
  unique), and the handler then sends that order.
\<close>

theorem get_books_miss_order:
  assumes "\<not> truthy (fst (getFromCache st ''books:all''))" and "up (pool st)"
  shows "fst (get_books st) = send 200 (JArr (map row_json (order_by_created_at_desc (pool st))))
    \<and> sorted_wrt (\<lambda>a b. created_at b \<le> created_at a) (order_by_created_at_desc (pool st))
    \<and> mset (order_by_created_at_desc (pool st)) = mset (rows (pool st))
    \<and> (mset res = mset (rows (pool st))
         \<and> sorted_wrt (\<lambda>a b. created_at b \<le> created_at a) res
         \<and> distinct (map col_id (rows (pool st))) \<longrightarrow>
         (\<exists>f. fst (get_books (st\<lparr>pool := (pool st)\<lparr>tie_rank := f\<rparr>\<rparr>))
                = send 200 (JArr (map row_json res))))"
proof (intro conjI impI)
  show "fst (get_books st) = send 200 (JArr (map row_json (order_by_created_at_desc (pool st))))"
    using get_books_on_miss [OF assms] by simp
  show "sorted_wrt (\<lambda>a b. created_at b \<le> created_at a) (order_by_created_at_desc (pool st))"
    by (rule sorted_order_by)
  show "mset (order_by_created_at_desc (pool st)) = mset (rows (pool st))"
    by (rule mset_order_by)
next
  assume "mset res = mset (rows (pool st))
         \<and> sorted_wrt (\<lambda>a b. created_at b \<le> created_at a) res
         \<and> distinct (map col_id (rows (pool st)))"
  then obtain f where f: "order_by_created_at_desc ((pool st)\<lparr>tie_rank := f\<rparr>) = res"
    using every_tie_order_is_possible [of res "pool st"] by blast
  let ?st = "st\<lparr>pool := (pool st)\<lparr>tie_rank := f\<rparr>\<rparr>"
  have "getFromCache ?st ''books:all'' = (fst (getFromCache st ''books:all''), 
          (snd (getFromCache st ''books:all''))\<lparr>pool := (pool st)\<lparr>tie_rank := f\<rparr>\<rparr>)"
    by (simp add: getFromCache_def log_def split: sum.splits option.splits)
  then have m: "\<not> truthy (fst (getFromCache ?st ''books:all''))"
    using assms(1) by simp
  have u: "up (pool ?st)"
    using assms(2) by simp
  have "fst (get_books ?st) = send 200 (JArr (map row_json res))"
    using get_books_on_miss [OF m u] f by simp
  then show "\<exists>f. fst (get_books (st\<lparr>pool := (pool st)\<lparr>tie_rank := f\<rparr>\<rparr>))
                = send 200 (JArr (map row_json res))"
    by blast
qed

text \<open>
  Two books created in the same second. The query allows the store to return them
  smaller identifier first, and when it does the collection is sent in that order:
  the tie is not broken by identifier, descending.
\<close>

theorem get_books_tie_not_by_id:
  "fst (get_books (serving two_books (healthy_cache [])))
     = send 200 (JArr [row_json book_A, row_json book_C])
   \<and> sorted_wrt (\<lambda>a b. created_at b \<le> created_at a) [book_A, book_C]
   \<and> mset [book_A, book_C] = mset (rows two_books)
   \<and> \<not> spec_scan_order [book_A, book_C]"
  by (simp add: get_books_def sample_defs cache_defs redis_defs store_defs spec_scan_order_def)

theorem get_books_miss_order_witness:
  "\<not> truthy (fst (getFromCache (serving two_books (healthy_cache [])) ''books:all''))
   \<and> up (pool (serving two_books (healthy_cache [])))
   \<and> fst (get_books (serving two_books (healthy_cache [])))
       = send 200 (JArr [row_json book_A, row_json book_C])
   \<and> mset [book_C, book_A] = mset (rows (pool (serving two_books (healthy_cache []))))
   \<and> sorted_wrt (\<lambda>a b. created_at b \<le> created_at a) [book_C, book_A]
   \<and> distinct (map col_id (rows (pool (serving two_books (healthy_cache [])))))
   \<and> (\<exists>f. fst (get_books ((serving two_books (healthy_cache []))
               \<lparr>pool := (pool (serving two_books (healthy_cache [])))\<lparr>tie_rank := f\<rparr>\<rparr>))
            = send 200 (JArr [row_json book_C, row_json book_A]))"
proof -
  let ?S = "serving two_books (healthy_cache [])"
  have m: "\<not> truthy (fst (getFromCache ?S ''books:all''))"
    by (simp add: sample_defs cache_defs redis_defs)
  have u: "up (pool ?S)"
    by (simp add: sample_defs)
  have o: "order_by_created_at_desc (pool ?S) = [book_A, book_C]"
    by (simp add: sample_defs store_defs)
  have p: "mset [book_C, book_A] = mset (rows (pool ?S))"
    and q: "sorted_wrt (\<lambda>a b. created_at b \<le> created_at a) [book_C, book_A]"
    and d: "distinct (map col_id (rows (pool ?S)))"
    by (simp_all add: sample_defs)
  note t = get_books_miss_order [OF m u, of "[book_C, book_A]"]
  from conjunct1 [OF t] have a: "fst (get_books ?S) = send 200 (JArr [row_json book_A, row_json book_C])"
    unfolding o by simp
  from conjunct2 [OF conjunct2 [OF conjunct2 [OF t]]] p q d
  have b: "\<exists>f. fst (get_books (?S\<lparr>pool := (pool ?S)\<lparr>tie_rank := f\<rparr>\<rparr>))
            = send 200 (JArr [row_json book_C, row_json book_A])"
    by simp
  show ?thesis
    by (intro conjI m u a p q d b)
qed

subsection \<open>Create\<close>

lemma falsy_Some [simp]: "falsy (Some t) = (t = [])"
  by (simp add: falsy_def)

lemma falsy_None [simp]: "falsy None"
  by (simp add: falsy_def)

lemma or_zero_case: "or_zero n = (case n of None \<Rightarrow> 0 | Some v \<Rightarrow> v)"
  by (simp add: or_zero_def split: option.splits)

lemma or_zero_None [simp]: "or_zero None = 0"
  by (simp add: or_zero_def)

lemma or_zero_Some [simp]: "or_zero (Some p) = p"
  by (simp add: or_zero_def)

text \<open>The members of the body that echoes a request.\<close>

lemma member_echo:
  shows "member ''id'' (echo n b msg) = Some (JNum (int n))"
    and "member ''title'' (echo n b msg) = map_option JStr (title b)"
    and "member ''author'' (echo n b msg) = map_option JStr (author b)"
    and "member ''isbn'' (echo n b msg) = map_option JStr (isbn b)"
    and "member ''price'' (echo n b msg) = map_option JNum (price b)"
    and "member ''stock'' (echo n b msg) = map_option JNum (stock b)"
    and "member ''message'' (echo n b msg) = Some (JStr msg)"
  by (cases "title b"; cases "author b"; cases "isbn b"; cases "price b"; cases "stock b";
      simp add: echo_def member_def)+

lemma has_key_member: "has_key k v = (member k v \<noteq> None)"
  by (simp add: has_key_def member_def split: json.splits)


lemma has_key_echo_price: "has_key ''price'' (echo n b msg) = (price b \<noteq> None)"
  by (simp add: has_key_member member_echo)

lemma has_key_echo_stock: "has_key ''stock'' (echo n b msg) = (stock b \<noteq> None)"
  by (simp add: has_key_member member_echo)

text \<open>Values that fit their columns are stored as they are.\<close>

lemma row_values_fit:
  assumes "length t \<le> 255" "length a \<le> 255" "length i \<le> 20"
    "- 9999999999 \<le> p" "p \<le> 9999999999" "- 2147483648 \<le> k" "k \<le> 2147483647"
  shows "row_values (Some t) (Some a) (Some i) (Some p) (Some k) = Inr (t, a, i, Some p, Some k)"
  using assms by (simp add: column_defs)

lemma post_books_conflict:
  assumes "title b = Some t" "t \<noteq> []" "author b = Some a" "a \<noteq> []"
    "isbn b = Some i" "i \<noteq> []"
    "length t \<le> 255" "length a \<le> 255" "length i \<le> 20"
    "- 9999999999 \<le> or_zero (price b)" "or_zero (price b) \<le> 9999999999"
    "- 2147483648 \<le> or_zero (stock b)" "or_zero (stock b) \<le> 2147483647"
    "up (pool st)" "isbn_taken (pool st) i (rows (pool st))"
  shows "post_books st b = (send 409 (error_body ''Book with this ISBN already exists''),
           log ''Error creating book''
             (st\<lparr>pool := (pool st)\<lparr>next_id := Suc (next_id (pool st))\<rparr>\<rparr>))"
  using assms by (simp add: post_books_def insert_book_def row_values_fit)





lemma insert_book_ok:
  assumes "insert_book s t a i p k = (Inr n, s')"
  shows "up s \<and> n = next_id s
    \<and> (\<exists>t' a' i'. s' = s\<lparr>rows := rows s @
         [\<lparr>col_id = next_id s, col_title = t', col_author = a', col_isbn = i',
           col_price = Some p, col_stock = Some k,
           created_at = now s, updated_at = now s\<rparr>],
         next_id := Suc (next_id s)\<rparr>)"
  using assms
  by (auto simp: insert_book_def row_values_def price_col_def stock_col_def
      split: if_splits sum.splits intro!: exI)

lemma post_books_201D:
  assumes "status (fst (post_books st b)) = 201"
  shows "up (pool st)
    \<and> (\<exists>t' a' i'. post_books st b =
    (send 201 (echo (next_id (pool st)) b ''Book created successfully''),
     invalidateCache (st\<lparr>pool := (pool st)\<lparr>rows := rows (pool st) @
         [\<lparr>col_id = next_id (pool st), col_title = t', col_author = a', col_isbn = i',
           col_price = Some (or_zero (price b)), col_stock = Some (or_zero (stock b)),
           created_at = now (pool st), updated_at = now (pool st)\<rparr>],
         next_id := Suc (next_id (pool st))\<rparr>\<rparr>)))"
proof -
  obtain r s' where i: "insert_book (pool st) (title b) (author b) (isbn b)
      (or_zero (price b)) (or_zero (stock b)) = (r, s')"
    by (cases "insert_book (pool st) (title b) (author b) (isbn b)
      (or_zero (price b)) (or_zero (stock b))")
  from assms i obtain n where r: "r = Inr n"
    and v: "\<not> (falsy (title b) \<or> falsy (author b) \<or> falsy (isbn b))"
    by (cases r) (auto simp: post_books_def send_def split: if_splits)
  from insert_book_ok [OF i [unfolded r]] obtain t' a' i' where
    u: "up (pool st)" and n: "n = next_id (pool st)"
    and s': "s' = (pool st)\<lparr>rows := rows (pool st) @
         [\<lparr>col_id = next_id (pool st), col_title = t', col_author = a', col_isbn = i',
           col_price = Some (or_zero (price b)), col_stock = Some (or_zero (stock b)),
           created_at = now (pool st), updated_at = now (pool st)\<rparr>],
         next_id := Suc (next_id (pool st))\<rparr>"
    by blast
  have "post_books st b =
    (send 201 (echo (next_id (pool st)) b ''Book created successfully''),
     invalidateCache (st\<lparr>pool := s'\<rparr>))"
    using v i r n by (simp add: post_books_def)
  with u s' show ?thesis by blast
qed

lemma member_row_json_price: "member ''price'' (row_json r) = Some (opt_num (col_price r))"
  by (simp add: row_json_def member_def)

lemma member_row_json_stock: "member ''stock'' (row_json r) = Some (opt_num (col_stock r))"
  by (simp add: row_json_def member_def)

text \<open>
  C10. After a successful \<open>POST /api/books\<close>, the 201 body echoes the request: it
  carries the identifier of the row just stored, the request's title, author and ISBN,
  its price and its stock when the request has them, and a message. The stored row,
  as a read serialises it, has the request's price and stock, and 0 where the request
  omitted them: for an omitted \<open>price\<close> the body has no \<open>price\<close> member while the
  stored row has \<open>price\<close> 0, and likewise for \<open>stock\<close>. The stored row is among the rows
  the collection scan returns.
\<close>

theorem created_body_vs_stored_row:
  assumes "status (fst (post_books st b)) = 201"
  shows "member ''id'' (body (fst (post_books st b))) = Some (JNum (int (col_id (last (rows (pool (snd (post_books st b))))))))
    \<and> member ''title'' (body (fst (post_books st b))) = map_option JStr (title b)
    \<and> member ''author'' (body (fst (post_books st b))) = map_option JStr (author b)
    \<and> member ''isbn'' (body (fst (post_books st b))) = map_option JStr (isbn b)
    \<and> member ''price'' (body (fst (post_books st b))) = map_option JNum (price b)
    \<and> member ''stock'' (body (fst (post_books st b))) = map_option JNum (stock b)
    \<and> member ''message'' (body (fst (post_books st b))) = Some (JStr ''Book created successfully'')
    \<and> member ''price'' (row_json (last (rows (pool (snd (post_books st b))))))
          = Some (JNum (case price b of None \<Rightarrow> 0 | Some p \<Rightarrow> p))
    \<and> member ''stock'' (row_json (last (rows (pool (snd (post_books st b))))))
          = Some (JNum (case stock b of None \<Rightarrow> 0 | Some k \<Rightarrow> k))
    \<and> (price b = None \<longrightarrow>
          \<not> has_key ''price'' (body (fst (post_books st b)))
          \<and> member ''price'' (row_json (last (rows (pool (snd (post_books st b)))))) = Some (JNum 0))
    \<and> (stock b = None \<longrightarrow>
          \<not> has_key ''stock'' (body (fst (post_books st b)))
          \<and> member ''stock'' (row_json (last (rows (pool (snd (post_books st b)))))) = Some (JNum 0))
    \<and> select_all_books (pool (snd (post_books st b)))
         = Inr (order_by_created_at_desc (pool (snd (post_books st b))))
    \<and> last (rows (pool (snd (post_books st b))))
         \<in> set (order_by_created_at_desc (pool (snd (post_books st b))))"
proof -
  from post_books_201D [OF assms] obtain t' a' i' where u: "up (pool st)"
    and e: "post_books st b =
    (send 201 (echo (next_id (pool st)) b ''Book created successfully''),
     invalidateCache (st\<lparr>pool := (pool st)\<lparr>rows := rows (pool st) @
         [\<lparr>col_id = next_id (pool st), col_title = t', col_author = a', col_isbn = i',
           col_price = Some (or_zero (price b)), col_stock = Some (or_zero (stock b)),
           created_at = now (pool st), updated_at = now (pool st)\<rparr>],
         next_id := Suc (next_id (pool st))\<rparr>\<rparr>))"
    by blast
  have r: "rows (pool (snd (post_books st b))) \<noteq> []"
    by (simp add: e)
  have c1: "member ''id'' (body (fst (post_books st b))) = Some (JNum (int (col_id (last (rows (pool (snd (post_books st b))))))))"
    using u r by (simp add: e send_def member_echo has_key_echo_price has_key_echo_stock
        member_row_json_price member_row_json_stock opt_num_def or_zero_case
        select_all_books_def set_order_by)
  have c2: "member ''title'' (body (fst (post_books st b))) = map_option JStr (title b)"
    using u r by (simp add: e send_def member_echo has_key_echo_price has_key_echo_stock
        member_row_json_price member_row_json_stock opt_num_def or_zero_case
        select_all_books_def set_order_by)
  have c3: "member ''author'' (body (fst (post_books st b))) = map_option JStr (author b)"
    using u r by (simp add: e send_def member_echo has_key_echo_price has_key_echo_stock
        member_row_json_price member_row_json_stock opt_num_def or_zero_case
        select_all_books_def set_order_by)
  have c4: "member ''isbn'' (body (fst (post_books st b))) = map_option JStr (isbn b)"
    using u r by (simp add: e send_def member_echo has_key_echo_price has_key_echo_stock
        member_row_json_price member_row_json_stock opt_num_def or_zero_case
        select_all_books_def set_order_by)
  have c5: "member ''price'' (body (fst (post_books st b))) = map_option JNum (price b)"
    using u r by (simp add: e send_def member_echo has_key_echo_price has_key_echo_stock
        member_row_json_price member_row_json_stock opt_num_def or_zero_case
        select_all_books_def set_order_by)
  have c6: "member ''stock'' (body (fst (post_books st b))) = map_option JNum (stock b)"
    using u r by (simp add: e send_def member_echo has_key_echo_price has_key_echo_stock
        member_row_json_price member_row_json_stock opt_num_def or_zero_case
        select_all_books_def set_order_by)
  have c7: "member ''message'' (body (fst (post_books st b))) = Some (JStr ''Book created successfully'')"
    using u r by (simp add: e send_def member_echo has_key_echo_price has_key_echo_stock
        member_row_json_price member_row_json_stock opt_num_def or_zero_case
        select_all_books_def set_order_by)
  have c8: "member ''price'' (row_json (last (rows (pool (snd (post_books st b))))))
          = Some (JNum (case price b of None \<Rightarrow> 0 | Some p \<Rightarrow> p))"
    using u r by (simp add: e send_def member_echo has_key_echo_price has_key_echo_stock
        member_row_json_price member_row_json_stock opt_num_def or_zero_case
        select_all_books_def set_order_by)
  have c9: "member ''stock'' (row_json (last (rows (pool (snd (post_books st b))))))
          = Some (JNum (case stock b of None \<Rightarrow> 0 | Some k \<Rightarrow> k))"
    using u r by (simp add: e send_def member_echo has_key_echo_price has_key_echo_stock
        member_row_json_price member_row_json_stock opt_num_def or_zero_case
        select_all_books_def set_order_by)
  have c10: "(price b = None \<longrightarrow>
          \<not> has_key ''price'' (body (fst (post_books st b)))
          \<and> member ''price'' (row_json (last (rows (pool (snd (post_books st b)))))) = Some (JNum 0))"
    using u r by (simp add: e send_def member_echo has_key_echo_price has_key_echo_stock
        member_row_json_price member_row_json_stock opt_num_def or_zero_case
        select_all_books_def set_order_by)
  have c11: "(stock b = None \<longrightarrow>
          \<not> has_key ''stock'' (body (fst (post_books st b)))
          \<and> member ''stock'' (row_json (last (rows (pool (snd (post_books st b)))))) = Some (JNum 0))"
    using u r by (simp add: e send_def member_echo has_key_echo_price has_key_echo_stock
        member_row_json_price member_row_json_stock opt_num_def or_zero_case
        select_all_books_def set_order_by)
  have c12: "select_all_books (pool (snd (post_books st b)))
         = Inr (order_by_created_at_desc (pool (snd (post_books st b))))"
    using u r by (simp add: e send_def member_echo has_key_echo_price has_key_echo_stock
        member_row_json_price member_row_json_stock opt_num_def or_zero_case
        select_all_books_def set_order_by)
  have c13: "last (rows (pool (snd (post_books st b))))
         \<in> set (order_by_created_at_desc (pool (snd (post_books st b))))"
    using u r by (simp add: e send_def member_echo has_key_echo_price has_key_echo_stock
        member_row_json_price member_row_json_stock opt_num_def or_zero_case
        select_all_books_def set_order_by)
  show ?thesis
    by (intro conjI c1 c2 c3 c4 c5 c6 c7 c8 c9 c10 c11 c12 c13)
qed

theorem created_body_vs_stored_row_witness:
  "status (fst (post_books (serving two_books (healthy_cache [])) new_book)) = 201
   \<and> price new_book = None \<and> stock new_book = None
   \<and> member ''title'' (body (fst (post_books (serving two_books (healthy_cache [])) new_book))) = Some (JStr ''E'')
   \<and> member ''price'' (body (fst (post_books (serving two_books (healthy_cache [])) new_book))) = None
   \<and> \<not> has_key ''price'' (body (fst (post_books (serving two_books (healthy_cache [])) new_book)))
   \<and> member ''price'' (row_json (last (rows (pool (snd (post_books (serving two_books (healthy_cache [])) new_book))))))
       = Some (JNum 0)
   \<and> \<not> has_key ''stock'' (body (fst (post_books (serving two_books (healthy_cache [])) new_book)))
   \<and> member ''stock'' (row_json (last (rows (pool (snd (post_books (serving two_books (healthy_cache [])) new_book))))))
       = Some (JNum 0)
   \<and> status (fst (post_books (serving two_books (healthy_cache [])) (new_book\<lparr>price := Some 1999, stock := Some 5\<rparr>))) = 201
   \<and> member ''price'' (body (fst (post_books (serving two_books (healthy_cache [])) (new_book\<lparr>price := Some 1999, stock := Some 5\<rparr>)))) = Some (JNum 1999)
   \<and> member ''price'' (row_json (last (rows (pool (snd (post_books (serving two_books (healthy_cache [])) (new_book\<lparr>price := Some 1999, stock := Some 5\<rparr>)))))))
       = Some (JNum 1999)"
proof -
  let ?S = "serving two_books (healthy_cache [])"
  let ?P = "new_book\<lparr>price := Some 1999, stock := Some 5\<rparr>"
  have s: "status (fst (post_books ?S new_book)) = 201"
    and s': "status (fst (post_books ?S ?P)) = 201"
    by (simp_all add: post_books_def sample_defs store_defs column_defs send_def falsy_def
        ascii_ci_def rstrip_def to_upper_def)
  have n: "price new_book = None" and n': "stock new_book = None"
    by (simp_all add: new_book_def)
  note t = created_body_vs_stored_row [OF s]
  note t' = created_body_vs_stored_row [OF s']
  from conjunct1 [OF conjunct2 [OF t]] have a: "member ''title'' (body (fst (post_books ?S new_book))) = Some (JStr ''E'')"
    by (simp add: new_book_def)
  from conjunct1 [OF conjunct2 [OF conjunct2 [OF conjunct2 [OF conjunct2 [OF t]]]]] have b: "member ''price'' (body (fst (post_books ?S new_book))) = None"
    by (simp add: new_book_def)
  note c = mp [OF conjunct1 [OF conjunct2 [OF conjunct2 [OF conjunct2 [OF conjunct2 [OF conjunct2 [OF conjunct2 [OF conjunct2 [OF conjunct2 [OF conjunct2 [OF t]]]]]]]]]] n]
  note d = mp [OF conjunct1 [OF conjunct2 [OF conjunct2 [OF conjunct2 [OF conjunct2 [OF conjunct2 [OF conjunct2 [OF conjunct2 [OF conjunct2 [OF conjunct2 [OF conjunct2 [OF t]]]]]]]]]]] n']
  from conjunct1 [OF conjunct2 [OF conjunct2 [OF conjunct2 [OF conjunct2 [OF t']]]]] have e: "member ''price'' (body (fst (post_books ?S ?P))) = Some (JNum 1999)"
    by (simp add: new_book_def)
  from conjunct1 [OF conjunct2 [OF conjunct2 [OF conjunct2 [OF conjunct2 [OF conjunct2 [OF conjunct2 [OF conjunct2 [OF t']]]]]]]] have f: "member ''price'' (row_json (last (rows (pool (snd (post_books ?S ?P))))))
       = Some (JNum 1999)"
    by (simp add: new_book_def)
  show ?thesis
    by (intro conjI s n n' a b conjunct1 [OF c] conjunct2 [OF c] conjunct1 [OF d]
        conjunct2 [OF d] s' e f)
qed

subsection \<open>What \<open>invalidateCache\<close> does\<close>

lemma glob_star: "glob_match ''*'' s"
  by (induction s) simp_all

lemma glob_books_prefix: "glob_match ''books:*'' (''books:'' @ s)"
  using glob_star [of s] by (cases s) simp_all

lemma glob_cacheKey: "glob_match ''books:*'' (cacheKey n)"
  unfolding cacheKey_def by (rule glob_books_prefix)

lemma glob_books_all: "glob_match ''books:*'' ''books:all''"
  by simp

lemma invalidateCache_closed:
  "\<not> isOpen (redisClient st) \<Longrightarrow> invalidateCache st = st"
  by (simp add: invalidateCache_def)

lemma invalidateCache_keys_fault:
  "isOpen (redisClient st) \<Longrightarrow> KEYS \<in> faults (redisClient st) \<Longrightarrow>
   invalidateCache st = log ''Cache invalidate error'' st"
  by (simp add: invalidateCache_def redis_keys_def)

lemma invalidateCache_del_fault:
  "isOpen (redisClient st) \<Longrightarrow> DEL \<in> faults (redisClient st) \<Longrightarrow>
   invalidateCache st = log ''Cache invalidate error'' st"
  by (simp add: invalidateCache_def redis_keys_def redis_del_def)

lemma sweep_entries:
  "filter (\<lambda>e. fst e \<notin> set (filter (glob_match ''books:*'') (map fst es))) es
     = filter (\<lambda>e. \<not> glob_match ''books:*'' (fst e)) es"
  by (rule filter_cong) auto

lemma second_delete_entries:
  "filter (\<lambda>e. fst e \<notin> set [''books:all'']) (filter (\<lambda>e. \<not> glob_match ''books:*'' (fst e)) es)
     = filter (\<lambda>e. \<not> glob_match ''books:*'' (fst e)) es"
proof (rule filter_True)
  show "\<forall>e \<in> set (filter (\<lambda>e. \<not> glob_match ''books:*'' (fst e)) es). fst e \<notin> set [''books:all'']"
    using glob_books_all by auto
qed

lemma no_keys_entries:
  assumes "filter (glob_match ''books:*'') (map fst es) = []"
  shows "filter (\<lambda>e. \<not> glob_match ''books:*'' (fst e)) es = es"
proof (rule filter_True)
  show "\<forall>e \<in> set es. \<not> glob_match ''books:*'' (fst e)"
    using assms by (auto simp: filter_empty_conv)
qed

lemma redis_del_ok:
  "DEL \<notin> faults c \<Longrightarrow>
   redis_del c ks = Inr (c\<lparr>entries := filter (\<lambda>e. fst e \<notin> set ks) (entries c)\<rparr>)"
  by (simp add: redis_del_def)

lemma invalidateCache_healthy:
  assumes "isOpen (redisClient st)" "KEYS \<notin> faults (redisClient st)" "DEL \<notin> faults (redisClient st)"
  shows "invalidateCache st = st\<lparr>redisClient := (redisClient st)
           \<lparr>entries := filter (\<lambda>e. \<not> glob_match ''books:*'' (fst e)) (entries (redisClient st))\<rparr>\<rparr>"
proof -
  define c where "c = redisClient st"
  define keys where "keys = filter (glob_match ''books:*'') (map fst (entries c))"
  define c1 where "c1 = c\<lparr>entries := filter (\<lambda>e. \<not> glob_match ''books:*'' (fst e)) (entries c)\<rparr>"
  have k: "redis_keys c ''books:*'' = Inr keys"
    using assms(2) by (simp add: redis_keys_def keys_def c_def)
  have f1: "DEL \<notin> faults c1"
    using assms(3) by (simp add: c1_def c_def)
  have d1: "(if 0 < length keys then redis_del c keys else Inr c) = Inr c1"
  proof (cases "keys = []")
    case True
    then have "c1 = c"
      using no_keys_entries [of "entries c"] by (simp add: c1_def keys_def)
    with True show ?thesis by simp
  next
    case False
    have f: "DEL \<notin> faults c"
      using assms(3) by (simp add: c_def)
    have "filter (\<lambda>e. fst e \<notin> set keys) (entries c)
            = filter (\<lambda>e. \<not> glob_match ''books:*'' (fst e)) (entries c)"
      unfolding keys_def by (rule sweep_entries)
    then have "redis_del c keys = Inr c1"
      unfolding c1_def redis_del_ok [OF f] by simp
    with False show ?thesis by simp
  qed
  have "redis_del c1 [''books:all''] = Inr (c1\<lparr>entries := entries c1\<rparr>)"
    using second_delete_entries [of "entries c"] redis_del_ok [OF f1, of "[''books:all'']"]
    by (simp add: c1_def)
  then have d2: "redis_del c1 [''books:all''] = Inr c1"
    by simp
  have "invalidateCache st = st\<lparr>redisClient := c1\<rparr>"
    using assms(1) unfolding invalidateCache_def c_def [symmetric]
    by (simp only: k d1 d2 sum.case simp_thms if_False)
  then show ?thesis
    by (simp add: c1_def c_def)
qed

lemma map_of_filter_not:
  "\<not> P k \<Longrightarrow> map_of (filter (\<lambda>e. P (fst e)) es) k = None"
  by (induction es) auto

lemma getFromCache_after_invalidate:
  assumes "\<not> isOpen (redisClient st) \<or> (KEYS \<notin> faults (redisClient st) \<and> DEL \<notin> faults (redisClient st))"
    and "glob_match ''books:*'' k"
  shows "fst (getFromCache (invalidateCache st) k) = JNull"
proof (cases "isOpen (redisClient st)")
  case False
  then show ?thesis
    by (simp add: invalidateCache_closed getFromCache_def)
next
  case True
  with assms have e: "invalidateCache st = st\<lparr>redisClient := (redisClient st)
           \<lparr>entries := filter (\<lambda>e. \<not> glob_match ''books:*'' (fst e)) (entries (redisClient st))\<rparr>\<rparr>"
    using invalidateCache_healthy [of st] by blast
  have "map_of (filter (\<lambda>e. \<not> glob_match ''books:*'' (fst e)) (entries (redisClient st))) k = None"
    using map_of_filter_not [of "\<lambda>k. \<not> glob_match ''books:*'' k" k] assms(2) by simp
  then show ?thesis
    by (simp add: e getFromCache_def redis_get_def split: sum.splits option.splits)
qed

subsection \<open>Mutations and invalidation\<close>

lemma insert_book_error:
  "insert_book s t a i p k = (Inl e, s') \<Longrightarrow> rows s' = rows s"
  by (auto simp: insert_book_def split: if_splits sum.splits)

lemma post_books_cases:
  "post_books st b = (send 400 (error_body ''Title, author, and ISBN are required''), st)
   \<or> (\<exists>s'. post_books st b = (send 409 (error_body ''Book with this ISBN already exists''),
                        log ''Error creating book'' (st\<lparr>pool := s'\<rparr>))
           \<and> rows s' = rows (pool st))
   \<or> (\<exists>s'. post_books st b = (send 500 (error_body ''Failed to create book''),
                        log ''Error creating book'' (st\<lparr>pool := s'\<rparr>))
           \<and> rows s' = rows (pool st))
   \<or> (\<exists>k s'. post_books st b = (send 201 (echo k b ''Book created successfully''),
                                  invalidateCache (st\<lparr>pool := s'\<rparr>)))"
proof (cases "falsy (title b) \<or> falsy (author b) \<or> falsy (isbn b)")
  case True
  then show ?thesis by (simp add: post_books_def)
next
  case False
  obtain r s' where i: "insert_book (pool st) (title b) (author b) (isbn b)
      (or_zero (price b)) (or_zero (stock b)) = (r, s')"
    by (cases "insert_book (pool st) (title b) (author b) (isbn b)
      (or_zero (price b)) (or_zero (stock b))")
  show ?thesis
  proof (cases r)
    case (Inl e)
    with i have "rows s' = rows (pool st)"
      using insert_book_error by simp
    with False i Inl have "post_books st b =
        (if e = ER_DUP_ENTRY
         then send 409 (error_body ''Book with this ISBN already exists'')
         else send 500 (error_body ''Failed to create book''),
         log ''Error creating book'' (st\<lparr>pool := s'\<rparr>))"
      and "rows s' = rows (pool st)"
      by (simp_all add: post_books_def)
    then show ?thesis
      by (cases "e = ER_DUP_ENTRY") auto
  next
    case (Inr k)
    with False i have "post_books st b = (send 201 (echo k b ''Book created successfully''),
                                  invalidateCache (st\<lparr>pool := s'\<rparr>))"
      by (simp add: post_books_def)
    then show ?thesis by blast
  qed
qed

lemma update_book_none:
  "update_book s n t a i p k = Inr (0, s') \<Longrightarrow> s' = s"
  by (auto simp: update_book_def split: if_splits sum.splits)

lemma put_book_cases:
  "put_book st n b = (send 404 (error_body ''Book not found''), st)
   \<or> put_book st n b = (send 500 (error_body ''Failed to update book''),
                        log ''Error updating book'' st)
   \<or> (\<exists>s'. put_book st n b = (send 200 (echo n b ''Book updated successfully''),
                                invalidateCache (st\<lparr>pool := s'\<rparr>)))"
proof (cases "update_book (pool st) n (title b) (author b) (isbn b) (price b) (stock b)")
  case (Inl e)
  then show ?thesis by (simp add: put_book_def)
next
  case (Inr r)
  obtain k s' where r: "r = (k, s')" by (cases r)
  show ?thesis
  proof (cases "k = 0")
    case True
    with Inr r have "s' = pool st"
      using update_book_none by simp
    with Inr r True show ?thesis by (simp add: put_book_def)
  next
    case False
    with Inr r have "put_book st n b = (send 200 (echo n b ''Book updated successfully''),
                                invalidateCache (st\<lparr>pool := s'\<rparr>))"
      by (simp add: put_book_def)
    then show ?thesis by blast
  qed
qed

lemma filter_other_ids:
  "filter (\<lambda>r. col_id r = n) rs = [] \<Longrightarrow> filter (\<lambda>r. col_id r \<noteq> n) rs = rs"
  by (induction rs) (auto split: if_splits)

lemma delete_book_none:
  "delete_book s n = Inr (0, s') \<Longrightarrow> s' = s"
  by (auto simp: delete_book_def filter_other_ids split: if_splits)

lemma delete_books_cases:
  "delete_books st n = (send 404 (error_body ''Book not found''), st)
   \<or> delete_books st n = (send 500 (error_body ''Failed to delete book''),
                          log ''Error deleting book'' st)
   \<or> (\<exists>s'. delete_books st n = (send 200 (JObj [(''message'', JStr ''Book deleted successfully'')]),
                                  invalidateCache (st\<lparr>pool := s'\<rparr>)))"
proof (cases "delete_book (pool st) n")
  case (Inl e)
  then show ?thesis by (simp add: delete_books_def)
next
  case (Inr r)
  obtain k s' where r: "r = (k, s')" by (cases r)
  show ?thesis
  proof (cases "k = 0")
    case True
    with Inr r have "s' = pool st"
      using delete_book_none by simp
    with Inr r True show ?thesis by (simp add: delete_books_def)
  next
    case False
    with Inr r have "delete_books st n =
        (send 200 (JObj [(''message'', JStr ''Book deleted successfully'')]),
         invalidateCache (st\<lparr>pool := s'\<rparr>))"
      by (simp add: delete_books_def)
    then show ?thesis by blast
  qed
qed

lemma post_books_invalidates:
  "(status (fst (post_books st b)) = 201 \<longrightarrow>
      snd (post_books st b) = invalidateCache (st\<lparr>pool := pool (snd (post_books st b))\<rparr>))
   \<and> (status (fst (post_books st b)) \<noteq> 201 \<longrightarrow>
      redisClient (snd (post_books st b)) = redisClient st
      \<and> rows (pool (snd (post_books st b))) = rows (pool st)
      \<and> status (fst (post_books st b)) \<in> {400, 409, 500})"
  using post_books_cases [of st b]
  by (elim disjE exE conjE) (simp_all add: send_def log_def)

lemma put_book_invalidates:
  "(status (fst (put_book st n b)) = 200 \<longrightarrow>
      snd (put_book st n b) = invalidateCache (st\<lparr>pool := pool (snd (put_book st n b))\<rparr>))
   \<and> (status (fst (put_book st n b)) \<noteq> 200 \<longrightarrow>
      redisClient (snd (put_book st n b)) = redisClient st
      \<and> pool (snd (put_book st n b)) = pool st)"
  using put_book_cases [of st n b]
  by (elim disjE exE) (simp_all add: send_def log_def)

lemma delete_books_invalidates:
  "(status (fst (delete_books st n)) = 200 \<longrightarrow>
      snd (delete_books st n) = invalidateCache (st\<lparr>pool := pool (snd (delete_books st n))\<rparr>))
   \<and> (status (fst (delete_books st n)) \<noteq> 200 \<longrightarrow>
      redisClient (snd (delete_books st n)) = redisClient st
      \<and> pool (snd (delete_books st n)) = pool st
      \<and> status (fst (delete_books st n)) \<in> {404, 500})"
  using delete_books_cases [of st n]
  by (elim disjE exE) (simp_all add: send_def log_def)

lemma mutation_failure_codes:
  "(title b = Some t \<and> t \<noteq> [] \<and> author b = Some a \<and> a \<noteq> [] \<and> isbn b = Some i \<and> i \<noteq> []
      \<and> length t \<le> 255 \<and> length a \<le> 255 \<and> length i \<le> 20
      \<and> - 9999999999 \<le> or_zero (price b) \<and> or_zero (price b) \<le> 9999999999
      \<and> - 2147483648 \<le> or_zero (stock b) \<and> or_zero (stock b) \<le> 2147483647
      \<and> up (pool st)
      \<and> unicode_ci (pool st) i
            \<in> set (map (\<lambda>r. unicode_ci (pool st) (col_isbn r)) (rows (pool st))) \<longrightarrow>
      status (fst (post_books st b)) = 409)
   \<and> (\<not> falsy (title b) \<and> \<not> falsy (author b) \<and> \<not> falsy (isbn b) \<and> \<not> up (pool st) \<longrightarrow>
      status (fst (post_books st b)) = 500)
   \<and> (up (pool st) \<and> filter (\<lambda>r. col_id r = n) (rows (pool st)) = [] \<longrightarrow>
      status (fst (put_book st n b)) = 404 \<and> status (fst (delete_books st n)) = 404)
   \<and> (\<not> up (pool st) \<longrightarrow>
      status (fst (put_book st n b)) = 500 \<and> status (fst (delete_books st n)) = 500)"
proof (intro conjI impI)
  assume "title b = Some t \<and> t \<noteq> [] \<and> author b = Some a \<and> a \<noteq> [] \<and> isbn b = Some i \<and> i \<noteq> []
      \<and> length t \<le> 255 \<and> length a \<le> 255 \<and> length i \<le> 20
      \<and> - 9999999999 \<le> or_zero (price b) \<and> or_zero (price b) \<le> 9999999999
      \<and> - 2147483648 \<le> or_zero (stock b) \<and> or_zero (stock b) \<le> 2147483647
      \<and> up (pool st)
      \<and> unicode_ci (pool st) i
            \<in> set (map (\<lambda>r. unicode_ci (pool st) (col_isbn r)) (rows (pool st)))"
  then show "status (fst (post_books st b)) = 409"
    using post_books_conflict [of b t a i st] by (simp add: isbn_taken_def send_def)
qed (auto simp: post_books_def put_book_def delete_books_def insert_book_def update_book_def
      delete_book_def send_def)

lemma invalidateCache_effect:
  "(\<not> isOpen (redisClient st) \<longrightarrow> invalidateCache st = st)
   \<and> (isOpen (redisClient st) \<and> (KEYS \<in> faults (redisClient st) \<or> DEL \<in> faults (redisClient st)) \<longrightarrow>
        invalidateCache st = log ''Cache invalidate error'' st)
   \<and> (isOpen (redisClient st) \<and> KEYS \<notin> faults (redisClient st) \<and> DEL \<notin> faults (redisClient st) \<longrightarrow>
        invalidateCache st = st\<lparr>redisClient := (redisClient st)
           \<lparr>entries := filter (\<lambda>e. \<not> glob_match ''books:*'' (fst e)) (entries (redisClient st))\<rparr>\<rparr>)"
  using invalidateCache_closed [of st] invalidateCache_keys_fault [of st]
    invalidateCache_del_fault [of st] invalidateCache_healthy [of st]
  by blast

text \<open>
  C6 (amended). For every create, update and delete request, \<open>invalidateCache\<close> is run
  if and only if the store mutation succeeds: on success the state left is that of
  \<open>invalidateCache\<close> after the mutation, and on failure the cache is as before and
  no row has changed. \<open>invalidateCache\<close> is best-effort: it changes nothing when the
  client is not open, only records the error when \<open>KEYS\<close> or \<open>DEL\<close> fails, and
  otherwise removes every key matching \<open>books:*\<close>, the collection key among them. A
  failed create is answered 400, 409 or 500, with 409 for an ISBN already in the store
  and 500 when the store is unreachable; an update or a delete is answered 404 when no
  row has the identifier and 500 when the store is unreachable, and a failed delete
  has no other answer.
\<close>

theorem mutations_invalidate_on_success:
  "(status (fst (post_books st b)) = 201 \<longrightarrow>
      snd (post_books st b) = invalidateCache (st\<lparr>pool := pool (snd (post_books st b))\<rparr>))
   \<and> (status (fst (post_books st b)) \<noteq> 201 \<longrightarrow>
      redisClient (snd (post_books st b)) = redisClient st
      \<and> rows (pool (snd (post_books st b))) = rows (pool st)
      \<and> status (fst (post_books st b)) \<in> {400, 409, 500})
   \<and> (status (fst (put_book st n b)) = 200 \<longrightarrow>
      snd (put_book st n b) = invalidateCache (st\<lparr>pool := pool (snd (put_book st n b))\<rparr>))
   \<and> (status (fst (put_book st n b)) \<noteq> 200 \<longrightarrow>
      redisClient (snd (put_book st n b)) = redisClient st
      \<and> pool (snd (put_book st n b)) = pool st)
   \<and> (status (fst (delete_books st n)) = 200 \<longrightarrow>
      snd (delete_books st n) = invalidateCache (st\<lparr>pool := pool (snd (delete_books st n))\<rparr>))
   \<and> (status (fst (delete_books st n)) \<noteq> 200 \<longrightarrow>
      redisClient (snd (delete_books st n)) = redisClient st
      \<and> pool (snd (delete_books st n)) = pool st
      \<and> status (fst (delete_books st n)) \<in> {404, 500})
   \<and> (title b = Some t \<and> t \<noteq> [] \<and> author b = Some a \<and> a \<noteq> [] \<and> isbn b = Some i \<and> i \<noteq> []
      \<and> length t \<le> 255 \<and> length a \<le> 255 \<and> length i \<le> 20
      \<and> - 9999999999 \<le> or_zero (price b) \<and> or_zero (price b) \<le> 9999999999
      \<and> - 2147483648 \<le> or_zero (stock b) \<and> or_zero (stock b) \<le> 2147483647
      \<and> up (pool st)
      \<and> unicode_ci (pool st) i
            \<in> set (map (\<lambda>r. unicode_ci (pool st) (col_isbn r)) (rows (pool st))) \<longrightarrow>
      status (fst (post_books st b)) = 409)
   \<and> (\<not> falsy (title b) \<and> \<not> falsy (author b) \<and> \<not> falsy (isbn b) \<and> \<not> up (pool st) \<longrightarrow>
      status (fst (post_books st b)) = 500)
   \<and> (up (pool st) \<and> filter (\<lambda>r. col_id r = n) (rows (pool st)) = [] \<longrightarrow>
      status (fst (put_book st n b)) = 404 \<and> status (fst (delete_books st n)) = 404)
   \<and> (\<not> up (pool st) \<longrightarrow>
      status (fst (put_book st n b)) = 500 \<and> status (fst (delete_books st n)) = 500)
   \<and> (\<not> isOpen (redisClient st) \<longrightarrow> invalidateCache st = st)
   \<and> (isOpen (redisClient st) \<and> (KEYS \<in> faults (redisClient st) \<or> DEL \<in> faults (redisClient st)) \<longrightarrow>
        invalidateCache st = log ''Cache invalidate error'' st)
   \<and> (isOpen (redisClient st) \<and> KEYS \<notin> faults (redisClient st) \<and> DEL \<notin> faults (redisClient st) \<longrightarrow>
        invalidateCache st = st\<lparr>redisClient := (redisClient st)
           \<lparr>entries := filter (\<lambda>e. \<not> glob_match ''books:*'' (fst e)) (entries (redisClient st))\<rparr>\<rparr>)"
proof -
  note p = post_books_invalidates [of st b]
    and q = put_book_invalidates [of st n b]
    and d = delete_books_invalidates [of st n]
    and m = mutation_failure_codes [of b t a i st n]
    and e = invalidateCache_effect [of st]
  show ?thesis
    by (intro conjI conjunct1 [OF p] conjunct2 [OF p] conjunct1 [OF q] conjunct2 [OF q]
        conjunct1 [OF d] conjunct2 [OF d]
        conjunct1 [OF m] conjunct1 [OF conjunct2 [OF m]]
        conjunct1 [OF conjunct2 [OF conjunct2 [OF m]]]
        conjunct2 [OF conjunct2 [OF conjunct2 [OF m]]]
        conjunct1 [OF e] conjunct1 [OF conjunct2 [OF e]] conjunct2 [OF conjunct2 [OF e]])
qed

text \<open>
  A create that succeeds while \<open>KEYS\<close> fails: the store gains the row, the error of the
  invalidation is swallowed and the cache keeps every entry, the collection key
  included. Neither the sweep nor the second delete is performed.
\<close>

theorem post_books_failed_sweep_keeps_entries:
  "status (fst (post_books (serving two_books (faulty_cache {KEYS} stale_entries)) new_book)) = 201
   \<and> rows (pool (snd (post_books (serving two_books (faulty_cache {KEYS} stale_entries)) new_book))) \<noteq> rows two_books
   \<and> entries (redisClient (snd (post_books (serving two_books (faulty_cache {KEYS} stale_entries)) new_book))) = stale_entries
   \<and> map_of stale_entries ''books:all''
       = Some (300, JArr [row_json book_A, row_json book_C])"
  by (simp add: post_books_def falsy_def insert_book_def isbn_taken_def column_defs
      invalidateCache_def redis_keys_def log_def send_def or_zero_def
      two_books_def faulty_cache_def serving_def new_book_def stale_entries_def
      book_A_def book_C_def ascii_ci_def rstrip_def to_upper_def)

theorem mutations_invalidate_on_success_witness:
  "status (fst (post_books (serving two_books (healthy_cache stale_entries)) new_book)) = 201
   \<and> snd (post_books (serving two_books (healthy_cache stale_entries)) new_book)
       = invalidateCache ((serving two_books (healthy_cache stale_entries))
           \<lparr>pool := pool (snd (post_books (serving two_books (healthy_cache stale_entries)) new_book))\<rparr>)
   \<and> invalidateCache (serving two_books (healthy_cache stale_entries))
       = serving two_books (healthy_cache [(''session:9'', 300, JStr ''x'')])
   \<and> status (fst (post_books (serving two_books (healthy_cache stale_entries)) (new_book\<lparr>isbn := Some ''111''\<rparr>))) = 409
   \<and> redisClient (snd (post_books (serving two_books (healthy_cache stale_entries)) (new_book\<lparr>isbn := Some ''111''\<rparr>))) = healthy_cache stale_entries
   \<and> rows (pool (snd (post_books (serving two_books (healthy_cache stale_entries)) (new_book\<lparr>isbn := Some ''111''\<rparr>)))) = [book_A, book_C]
   \<and> status (fst (put_book (serving two_books (healthy_cache stale_entries)) 9 new_book)) = 404
   \<and> redisClient (snd (put_book (serving two_books (healthy_cache stale_entries)) 9 new_book)) = healthy_cache stale_entries
   \<and> status (fst (delete_books (serving two_books (healthy_cache stale_entries)) 9)) = 404
   \<and> redisClient (snd (delete_books (serving two_books (healthy_cache stale_entries)) 9)) = healthy_cache stale_entries"
proof -
  let ?S = "serving two_books (healthy_cache stale_entries)"
  let ?D = "new_book\<lparr>isbn := Some ''111''\<rparr>"
  have p: "status (fst (post_books ?S new_book)) = 201"
    by (simp add: post_books_def falsy_def insert_book_def isbn_taken_def column_defs send_def
        or_zero_def two_books_def serving_def new_book_def book_A_def book_C_def
        ascii_ci_def rstrip_def to_upper_def)
  have h: "isOpen (redisClient ?S) \<and> KEYS \<notin> faults (redisClient ?S) \<and> DEL \<notin> faults (redisClient ?S)"
    by (simp add: serving_def healthy_cache_def)
  have u: "up (pool ?S) \<and> filter (\<lambda>r. col_id r = 9) (rows (pool ?S)) = []"
    by (simp add: serving_def two_books_def book_A_def book_C_def)
  have f: "filter (\<lambda>e. \<not> glob_match ''books:*'' (fst e)) (entries (redisClient ?S))
            = [(''session:9'', 300, JStr ''x'')]"
    by (simp add: serving_def healthy_cache_def stale_entries_def)
  have r: "redisClient ?S = healthy_cache stale_entries"
    and w: "rows (pool ?S) = [book_A, book_C]"
    by (simp_all add: serving_def two_books_def)
  have v: "title ?D = Some ''E'' \<and> ''E'' \<noteq> [] \<and> author ?D = Some ''F'' \<and> ''F'' \<noteq> []
      \<and> isbn ?D = Some ''111'' \<and> ''111'' \<noteq> []
      \<and> length ''E'' \<le> 255 \<and> length ''F'' \<le> 255 \<and> length ''111'' \<le> 20
      \<and> - 9999999999 \<le> or_zero (price ?D) \<and> or_zero (price ?D) \<le> 9999999999
      \<and> - 2147483648 \<le> or_zero (stock ?D) \<and> or_zero (stock ?D) \<le> 2147483647
      \<and> up (pool ?S)
      \<and> unicode_ci (pool ?S) ''111''
            \<in> set (map (\<lambda>r. unicode_ci (pool ?S) (col_isbn r)) (rows (pool ?S)))"
    by (simp add: new_book_def serving_def two_books_def book_A_def book_C_def
        ascii_ci_def rstrip_def to_upper_def)
  note t = mutations_invalidate_on_success [of ?S new_book 9 "''E''" "''F''" "''333''"]
  note td = mutations_invalidate_on_success [of ?S ?D 9 "''E''" "''F''" "''111''"]
  from conjunct1 [OF t] p have 1: "snd (post_books ?S new_book)
       = invalidateCache (?S\<lparr>pool := pool (snd (post_books ?S new_book))\<rparr>)"
    by (rule mp)
  from conjunct2 [OF conjunct2 [OF conjunct2 [OF conjunct2 [OF conjunct2 [OF conjunct2 [OF conjunct2 [OF conjunct2 [OF conjunct2 [OF conjunct2 [OF conjunct2 [OF conjunct2 [OF t]]]]]]]]]]]] h have "invalidateCache ?S = ?S\<lparr>redisClient := (redisClient ?S)
           \<lparr>entries := filter (\<lambda>e. \<not> glob_match ''books:*'' (fst e)) (entries (redisClient ?S))\<rparr>\<rparr>"
    by (rule mp)
  then have 2: "invalidateCache ?S = serving two_books (healthy_cache [(''session:9'', 300, JStr ''x'')])"
    unfolding f by (simp add: serving_def healthy_cache_def)
  note c = mp [OF conjunct1 [OF conjunct2 [OF conjunct2 [OF conjunct2 [OF conjunct2 [OF conjunct2 [OF conjunct2 [OF td]]]]]]] v]
  from conjunct1 [OF conjunct2 [OF td]] c have 7: "redisClient (snd (post_books ?S ?D)) = redisClient ?S"
    and 8: "rows (pool (snd (post_books ?S ?D))) = rows (pool ?S)"
    by simp_all
  from mp [OF conjunct1 [OF conjunct2 [OF conjunct2 [OF conjunct2 [OF conjunct2 [OF conjunct2 [OF conjunct2 [OF conjunct2 [OF conjunct2 [OF t]]]]]]]]] u] have 3: "status (fst (put_book ?S 9 new_book)) = 404"
    and 4: "status (fst (delete_books ?S 9)) = 404"
    by simp_all
  from conjunct1 [OF conjunct2 [OF conjunct2 [OF conjunct2 [OF t]]]] 3 have 5: "redisClient (snd (put_book ?S 9 new_book)) = redisClient ?S"
    by simp
  from conjunct1 [OF conjunct2 [OF conjunct2 [OF conjunct2 [OF conjunct2 [OF conjunct2 [OF t]]]]]] 4 have 6: "redisClient (snd (delete_books ?S 9)) = redisClient ?S"
    by simp
  show ?thesis
    by (intro conjI p 1 2 c 7 [unfolded r] 8 [unfolded w] 3 5 [unfolded r] 4 6 [unfolded r])
qed

subsection \<open>Reading one book\<close>

lemma find_None_filter: "find P xs = None \<Longrightarrow> filter P xs = []"
  by (induction xs) (auto split: if_splits)

lemma find_Some_filter: "find P xs = Some x \<Longrightarrow> \<exists>ys. filter P xs = x # ys"
  by (induction xs) (auto split: if_splits)

lemma setToCache_ok:
  "isOpen (redisClient st) \<Longrightarrow> SETEX \<notin> faults (redisClient st) \<Longrightarrow>
   setToCache st k v = st\<lparr>redisClient := (redisClient st)
      \<lparr>entries := AList.update k (CACHE_TTL (redisClient st), v) (entries (redisClient st))\<rparr>\<rparr>"
  by (simp add: setToCache_def redis_setEx_def)

lemma setToCache_closed: "\<not> isOpen (redisClient st) \<Longrightarrow> setToCache st k v = st"
  by (simp add: setToCache_def)

lemma setToCache_fault:
  "isOpen (redisClient st) \<Longrightarrow> SETEX \<in> faults (redisClient st) \<Longrightarrow>
   setToCache st k v = log ''Cache set error'' st"
  by (simp add: setToCache_def redis_setEx_def)

lemma get_book_on_miss:
  assumes "\<not> truthy (fst (getFromCache st (cacheKey n)))" and "up (pool st)"
  shows "get_book st n =
    (case filter (\<lambda>r. col_id r = n) (rows (pool st)) of
       [] \<Rightarrow> (send 404 (error_body ''Book not found''), snd (getFromCache st (cacheKey n)))
     | r # rs \<Rightarrow> (send 200 (row_json r),
                 setToCache (snd (getFromCache st (cacheKey n)))
                   (cacheKey n) (row_json r)))"
proof -
  obtain c st1 where g: "getFromCache st (cacheKey n) = (c, st1)"
    by (cases "getFromCache st (cacheKey n)")
  then have "pool st1 = pool st"
    using pool_getFromCache [of st "cacheKey n"] by simp
  with g assms show ?thesis
    by (simp add: get_book_def select_book_def split: list.splits)
qed

text \<open>
  C8 (amended). On a cache miss with the store reachable: for an id absent from the
  store, \<open>GET /api/books/:id\<close> answers 404 and leaves the cache as it was; for an id
  present it answers 200 with the record and, when the cache client is open and
  \<open>SETEX\<close> succeeds, stores the record under the item key with the configured
  time-to-live; when the client is not open or \<open>SETEX\<close> fails the cache is left as it
  was.
\<close>

theorem get_book_miss_result:
  assumes "\<not> truthy (fst (getFromCache st (cacheKey n)))" and "up (pool st)"
  shows "(find (\<lambda>r. col_id r = n) (rows (pool st)) = None \<longrightarrow>
            fst (get_book st n) = send 404 (error_body ''Book not found'')
            \<and> redisClient (snd (get_book st n)) = redisClient st)
    \<and> (find (\<lambda>r. col_id r = n) (rows (pool st)) = Some r \<longrightarrow>
            fst (get_book st n) = send 200 (row_json r)
            \<and> (isOpen (redisClient st) \<and> SETEX \<notin> faults (redisClient st) \<longrightarrow>
                 entries (redisClient (snd (get_book st n)))
                   = AList.update (cacheKey n)
                       (CACHE_TTL (redisClient st), row_json r) (entries (redisClient st))
                 \<and> map_of (entries (redisClient (snd (get_book st n)))) (cacheKey n)
                   = Some (CACHE_TTL (redisClient st), row_json r))
            \<and> (\<not> isOpen (redisClient st) \<or> SETEX \<in> faults (redisClient st) \<longrightarrow>
                 redisClient (snd (get_book st n)) = redisClient st))"
proof (intro conjI impI)
  assume "find (\<lambda>r. col_id r = n) (rows (pool st)) = None"
  then have f: "filter (\<lambda>r. col_id r = n) (rows (pool st)) = []"
    by (rule find_None_filter)
  show "fst (get_book st n) = send 404 (error_body ''Book not found'')"
    by (simp add: get_book_on_miss [OF assms] f)
  show "redisClient (snd (get_book st n)) = redisClient st"
    by (simp add: get_book_on_miss [OF assms] f)
next
  assume "find (\<lambda>r. col_id r = n) (rows (pool st)) = Some r"
  then obtain rs where f: "filter (\<lambda>r. col_id r = n) (rows (pool st)) = r # rs"
    using find_Some_filter by fastforce
  note e = get_book_on_miss [OF assms]
  show "fst (get_book st n) = send 200 (row_json r)"
    by (simp add: e f)
  {
    assume h: "isOpen (redisClient st) \<and> SETEX \<notin> faults (redisClient st)"
    then have "isOpen (redisClient (snd (getFromCache st (cacheKey n))))"
      and "SETEX \<notin> faults (redisClient (snd (getFromCache st (cacheKey n))))"
      by (simp_all)
    then show u: "entries (redisClient (snd (get_book st n)))
                   = AList.update (cacheKey n)
                       (CACHE_TTL (redisClient st), row_json r) (entries (redisClient st))"
      by (simp add: e f setToCache_ok)
    show "map_of (entries (redisClient (snd (get_book st n)))) (cacheKey n)
                   = Some (CACHE_TTL (redisClient st), row_json r)"
      unfolding u by (simp add: update_conv')
  }
  {
    assume h: "\<not> isOpen (redisClient st) \<or> SETEX \<in> faults (redisClient st)"
    show "redisClient (snd (get_book st n)) = redisClient st"
    proof (cases "isOpen (redisClient st)")
      case False
      then have "\<not> isOpen (redisClient (snd (getFromCache st (cacheKey n))))"
        by (simp)
      then show ?thesis
        by (simp add: e f setToCache_closed)
    next
      case True
      with h have "isOpen (redisClient (snd (getFromCache st (cacheKey n))))"
        and "SETEX \<in> faults (redisClient (snd (getFromCache st (cacheKey n))))"
        by (simp_all)
      then show ?thesis
        by (simp add: e f setToCache_fault log_def)
    qed
  }
qed

lemma cacheKey_1: "cacheKey 1 = ''books:1''"
  by (simp add: cacheKey_def digit_char_def)

lemma cacheKey_9: "cacheKey 9 = ''books:9''"
  by (simp add: cacheKey_def digit_char_def)

text \<open>
  The cache answers the lookup (a miss) and rejects the write: book 1 is returned and
  its item key is not in the cache afterwards.
\<close>

theorem get_book_miss_not_populated:
  "redis_get (redisClient (serving two_books (faulty_cache {SETEX} []))) (cacheKey 1) = Inr None
   \<and> find (\<lambda>r. col_id r = 1) (rows (pool (serving two_books (faulty_cache {SETEX} [])))) = Some book_A
   \<and> get_book (serving two_books (faulty_cache {SETEX} [])) 1
       = (send 200 (row_json book_A),
          log ''Cache set error'' (serving two_books (faulty_cache {SETEX} [])))
   \<and> map_of (entries (redisClient (snd (get_book (serving two_books (faulty_cache {SETEX} [])) 1))))
        (cacheKey 1) = None"
  by (simp add: get_book_def cacheKey_1 getFromCache_def setToCache_def redis_get_def
      redis_setEx_def select_book_def log_def serving_def faulty_cache_def two_books_def
      book_A_def book_C_def)

theorem get_book_miss_result_witness:
  "\<not> truthy (fst (getFromCache (serving two_books (healthy_cache [])) (cacheKey 1)))
   \<and> up (pool (serving two_books (healthy_cache [])))
   \<and> find (\<lambda>r. col_id r = 1) (rows (pool (serving two_books (healthy_cache [])))) = Some book_A
   \<and> fst (get_book (serving two_books (healthy_cache [])) 1) = send 200 (row_json book_A)
   \<and> entries (redisClient (snd (get_book (serving two_books (healthy_cache [])) 1)))
       = [(''books:1'', 300, row_json book_A)]
   \<and> find (\<lambda>r. col_id r = 9) (rows (pool (serving two_books (healthy_cache [])))) = None
   \<and> fst (get_book (serving two_books (healthy_cache [])) 9) = send 404 (error_body ''Book not found'')
   \<and> redisClient (snd (get_book (serving two_books (healthy_cache [])) 9)) = healthy_cache []"
proof -
  let ?S = "serving two_books (healthy_cache [])"
  have m1: "\<not> truthy (fst (getFromCache ?S (cacheKey 1)))"
    and m9: "\<not> truthy (fst (getFromCache ?S (cacheKey 9)))"
    by (simp_all add: getFromCache_def redis_get_def serving_def healthy_cache_def)
  have u: "up (pool ?S)"
    by (simp add: serving_def two_books_def)
  have f1: "find (\<lambda>r. col_id r = 1) (rows (pool ?S)) = Some book_A"
    and f9: "find (\<lambda>r. col_id r = 9) (rows (pool ?S)) = None"
    by (simp_all add: serving_def two_books_def book_A_def book_C_def)
  have c: "isOpen (redisClient ?S) \<and> SETEX \<notin> faults (redisClient ?S)"
    and r: "redisClient ?S = healthy_cache []"
    by (simp_all add: serving_def healthy_cache_def)
  note a = conjunct2 [OF get_book_miss_result [OF m1 u, of book_A]]
  note b = conjunct1 [OF get_book_miss_result [OF m9 u, of book_A]]
  from mp [OF a f1] c have g1: "fst (get_book ?S 1) = send 200 (row_json book_A)"
    and "entries (redisClient (snd (get_book ?S 1)))
           = AList.update (cacheKey 1) (CACHE_TTL (redisClient ?S), row_json book_A)
               (entries (redisClient ?S))"
    by blast+
  then have e1: "entries (redisClient (snd (get_book ?S 1))) = [(''books:1'', 300, row_json book_A)]"
    unfolding r cacheKey_1 by (simp add: healthy_cache_def)
  from mp [OF b f9] have g9: "fst (get_book ?S 9) = send 404 (error_body ''Book not found'')"
    and "redisClient (snd (get_book ?S 9)) = redisClient ?S"
    by blast+
  then have r9: "redisClient (snd (get_book ?S 9)) = healthy_cache []"
    unfolding r by simp
  show ?thesis
    by (intro conjI m1 u f1 g1 e1 f9 g9 r9)
qed

subsection \<open>The read after a mutation\<close>

lemma next_read_after_invalidate:
  assumes "\<not> isOpen (redisClient st) \<or> (KEYS \<notin> faults (redisClient st) \<and> DEL \<notin> faults (redisClient st))"
    and "up s'"
  shows "fst (get_books (invalidateCache (st\<lparr>pool := s'\<rparr>)))
           = send 200 (JArr (map row_json (order_by_created_at_desc s')))"
proof -
  let ?st = "st\<lparr>pool := s'\<rparr>"
  have "\<not> isOpen (redisClient ?st) \<or> (KEYS \<notin> faults (redisClient ?st) \<and> DEL \<notin> faults (redisClient ?st))"
    using assms(1) by simp
  then have "fst (getFromCache (invalidateCache ?st) ''books:all'') = JNull"
    using glob_books_all by (rule getFromCache_after_invalidate)
  then have m: "\<not> truthy (fst (getFromCache (invalidateCache ?st) ''books:all''))"
    by simp
  have u: "up (pool (invalidateCache ?st))"
    using assms(2) by simp
  show ?thesis
    using get_books_on_miss [OF m u] by simp
qed

lemma post_books_success:
  assumes "status (fst (post_books st b)) = 201"
  shows "\<exists>s'. snd (post_books st b) = invalidateCache (st\<lparr>pool := s'\<rparr>) \<and> up s'"
proof -
  from post_books_201D [OF assms] obtain t' a' i' where u: "up (pool st)"
    and e: "post_books st b =
    (send 201 (echo (next_id (pool st)) b ''Book created successfully''),
     invalidateCache (st\<lparr>pool := (pool st)\<lparr>rows := rows (pool st) @
         [\<lparr>col_id = next_id (pool st), col_title = t', col_author = a', col_isbn = i',
           col_price = Some (or_zero (price b)), col_stock = Some (or_zero (stock b)),
           created_at = now (pool st), updated_at = now (pool st)\<rparr>],
         next_id := Suc (next_id (pool st))\<rparr>\<rparr>))"
    by blast
  define s' where "s' = (pool st)\<lparr>rows := rows (pool st) @
         [\<lparr>col_id = next_id (pool st), col_title = t', col_author = a', col_isbn = i',
           col_price = Some (or_zero (price b)), col_stock = Some (or_zero (stock b)),
           created_at = now (pool st), updated_at = now (pool st)\<rparr>],
         next_id := Suc (next_id (pool st))\<rparr>"
  have "snd (post_books st b) = invalidateCache (st\<lparr>pool := s'\<rparr>)"
    by (simp add: e s'_def)
  moreover have "up s'"
    using u by (simp add: s'_def)
  ultimately show ?thesis by blast
qed

lemma update_book_up: "update_book s n t a i p k = Inr (m, s') \<Longrightarrow> up s'"
  by (auto simp: update_book_def split: if_splits sum.splits)

lemma delete_book_up: "delete_book s n = Inr (m, s') \<Longrightarrow> up s'"
  by (auto simp: delete_book_def split: if_splits)

lemma put_book_success:
  assumes "status (fst (put_book st n b)) = 200"
  shows "\<exists>s'. snd (put_book st n b) = invalidateCache (st\<lparr>pool := s'\<rparr>) \<and> up s'"
proof (cases "update_book (pool st) n (title b) (author b) (isbn b) (price b) (stock b)")
  case (Inl e)
  with assms show ?thesis by (simp add: put_book_def send_def)
next
  case (Inr r)
  obtain m s' where r: "r = (m, s')" by (cases r)
  with Inr have "up s'" using update_book_up by simp
  moreover from assms Inr r have "snd (put_book st n b) = invalidateCache (st\<lparr>pool := s'\<rparr>)"
    by (simp add: put_book_def send_def split: if_splits)
  ultimately show ?thesis by blast
qed

lemma delete_books_success:
  assumes "status (fst (delete_books st n)) = 200"
  shows "\<exists>s'. snd (delete_books st n) = invalidateCache (st\<lparr>pool := s'\<rparr>) \<and> up s'"
proof (cases "delete_book (pool st) n")
  case (Inl e)
  with assms show ?thesis by (simp add: delete_books_def send_def)
next
  case (Inr r)
  obtain m s' where r: "r = (m, s')" by (cases r)
  with Inr have "up s'" using delete_book_up by simp
  moreover from assms Inr r have "snd (delete_books st n) = invalidateCache (st\<lparr>pool := s'\<rparr>)"
    by (simp add: delete_books_def send_def split: if_splits)
  ultimately show ?thesis by blast
qed

lemma fresh_read:
  assumes "\<not> isOpen (redisClient st) \<or> (KEYS \<notin> faults (redisClient st) \<and> DEL \<notin> faults (redisClient st))"
    and "\<exists>s'. st' = invalidateCache (st\<lparr>pool := s'\<rparr>) \<and> up s'"
  shows "fst (get_books st') = send 200 (JArr (map row_json (order_by_created_at_desc (pool st'))))"
proof -
  from assms(2) obtain s' where s: "st' = invalidateCache (st\<lparr>pool := s'\<rparr>)" "up s'"
    by blast
  have "pool st' = s'"
    by (simp add: s(1))
  then show ?thesis
    using next_read_after_invalidate [OF assms(1) s(2)] s(1) by simp
qed

text \<open>
  C9 (amended). After a successful create, update or delete whose invalidation meets no
  cache error (the cache client is not open, or \<open>KEYS\<close> and \<open>DEL\<close> both succeed), the
  next \<open>GET /api/books\<close> is not served from the cache: it answers 200 with the
  records of the store as the mutation left it.
\<close>

theorem next_get_books_is_fresh:
  assumes "\<not> isOpen (redisClient st) \<or> (KEYS \<notin> faults (redisClient st) \<and> DEL \<notin> faults (redisClient st))"
  shows "(status (fst (post_books st b)) = 201 \<longrightarrow>
            fst (get_books (snd (post_books st b)))
              = send 200 (JArr (map row_json
                  (order_by_created_at_desc (pool (snd (post_books st b)))))))
    \<and> (status (fst (put_book st n b)) = 200 \<longrightarrow>
            fst (get_books (snd (put_book st n b)))
              = send 200 (JArr (map row_json
                  (order_by_created_at_desc (pool (snd (put_book st n b)))))))
    \<and> (status (fst (delete_books st n)) = 200 \<longrightarrow>
            fst (get_books (snd (delete_books st n)))
              = send 200 (JArr (map row_json
                  (order_by_created_at_desc (pool (snd (delete_books st n)))))))"
proof (intro conjI impI)
  assume "status (fst (post_books st b)) = 201"
  then show "fst (get_books (snd (post_books st b)))
              = send 200 (JArr (map row_json
                  (order_by_created_at_desc (pool (snd (post_books st b))))))"
    by (intro fresh_read [OF assms] post_books_success)
next
  assume "status (fst (put_book st n b)) = 200"
  then show "fst (get_books (snd (put_book st n b)))
              = send 200 (JArr (map row_json
                  (order_by_created_at_desc (pool (snd (put_book st n b))))))"
    by (intro fresh_read [OF assms] put_book_success)
next
  assume "status (fst (delete_books st n)) = 200"
  then show "fst (get_books (snd (delete_books st n)))
              = send 200 (JArr (map row_json
                  (order_by_created_at_desc (pool (snd (delete_books st n))))))"
    by (intro fresh_read [OF assms] delete_books_success)
qed

text \<open>
  \<open>KEYS\<close> fails while \<open>GET\<close> works: book 1 is deleted with answer 200, the error
  of the invalidation is swallowed, and the next \<open>GET /api/books\<close> is served from the
  collection key, book 1 still in it.
\<close>

theorem get_books_stale_after_delete:
  "status (fst (delete_books (serving two_books (faulty_cache {KEYS} stale_entries)) 1)) = 200
   \<and> rows (pool (snd (delete_books (serving two_books (faulty_cache {KEYS} stale_entries)) 1)))
       = [book_C]
   \<and> fst (get_books (snd (delete_books (serving two_books (faulty_cache {KEYS} stale_entries)) 1)))
       = send 200 (JObj [(''0'', row_json book_A), (''1'', row_json book_C),
                         (''fromCache'', JBool True)])"
  by (simp add: delete_books_def delete_book_def get_books_def getFromCache_def
      invalidateCache_def redis_keys_def redis_get_def log_def tag_fromCache_def digit_char_def
      send_def serving_def faulty_cache_def two_books_def stale_entries_def book_A_def
      book_C_def)

theorem next_get_books_is_fresh_witness:
  "KEYS \<notin> faults (redisClient (serving two_books (healthy_cache stale_entries)))
   \<and> DEL \<notin> faults (redisClient (serving two_books (healthy_cache stale_entries)))
   \<and> status (fst (delete_books (serving two_books (healthy_cache stale_entries)) 1)) = 200
   \<and> fst (get_books (snd (delete_books (serving two_books (healthy_cache stale_entries)) 1)))
       = send 200 (JArr [row_json book_C])
   \<and> status (fst (post_books (serving two_books (healthy_cache stale_entries)) new_book)) = 201
   \<and> fst (get_books (snd (post_books (serving two_books (healthy_cache stale_entries)) new_book)))
       = send 200 (JArr (map row_json (order_by_created_at_desc (pool (snd
           (post_books (serving two_books (healthy_cache stale_entries)) new_book))))))
   \<and> status (fst (put_book (serving two_books (healthy_cache stale_entries)) 1 new_book)) = 200
   \<and> fst (get_books (snd (put_book (serving two_books (healthy_cache stale_entries)) 1 new_book)))
       = send 200 (JArr (map row_json (order_by_created_at_desc (pool (snd
           (put_book (serving two_books (healthy_cache stale_entries)) 1 new_book))))))"
proof -
  let ?S = "serving two_books (healthy_cache stale_entries)"
  have k: "KEYS \<notin> faults (redisClient ?S)" and d: "DEL \<notin> faults (redisClient ?S)"
    by (simp_all add: serving_def healthy_cache_def)
  then have h: "\<not> isOpen (redisClient ?S)
      \<or> (KEYS \<notin> faults (redisClient ?S) \<and> DEL \<notin> faults (redisClient ?S))"
    by simp
  have sd: "status (fst (delete_books ?S 1)) = 200"
    by (simp add: delete_books_def delete_book_def send_def serving_def two_books_def
        book_A_def book_C_def)
  have sp: "status (fst (post_books ?S new_book)) = 201"
    by (simp add: post_books_def insert_book_def isbn_taken_def column_defs falsy_def
        send_def serving_def two_books_def new_book_def book_A_def book_C_def
        ascii_ci_def rstrip_def to_upper_def)
  have su: "status (fst (put_book ?S 1 new_book)) = 200"
    by (simp add: put_book_def update_book_def isbn_taken_def column_defs send_def
        serving_def two_books_def new_book_def book_A_def book_C_def
        ascii_ci_def rstrip_def to_upper_def)
  have rd: "order_by_created_at_desc (pool (snd (delete_books ?S 1))) = [book_C]"
    by (simp add: delete_books_def delete_book_def order_by_created_at_desc_def serving_def
        two_books_def book_A_def book_C_def)
  note t = next_get_books_is_fresh [OF h, of new_book 1]
  from mp [OF conjunct2 [OF conjunct2 [OF t]] sd]
  have gd: "fst (get_books (snd (delete_books ?S 1))) = send 200 (JArr [row_json book_C])"
    unfolding rd by simp
  note gp = mp [OF conjunct1 [OF t] sp]
  note gu = mp [OF conjunct1 [OF conjunct2 [OF t]] su]
  show ?thesis
    by (intro conjI k d sd gd sp gp su gu)
qed

subsection \<open>Cache errors and an unreachable cache\<close>

text \<open>
  A command that Redis rejects is recorded and swallowed: the lookup reads as a miss,
  the populate and the invalidation change nothing. With the client not open the
  three helpers do nothing at all.
\<close>

lemma cache_op_faults:
  shows "isOpen (redisClient st) \<and> GET \<in> faults (redisClient st) \<longrightarrow>
      getFromCache st k = (JNull, log ''Cache get error'' st)"
    and "isOpen (redisClient st) \<and> SETEX \<in> faults (redisClient st) \<longrightarrow>
      setToCache st k v = log ''Cache set error'' st"
    and "isOpen (redisClient st) \<and> (KEYS \<in> faults (redisClient st) \<or> DEL \<in> faults (redisClient st)) \<longrightarrow>
      invalidateCache st = log ''Cache invalidate error'' st"
    and "\<not> isOpen (redisClient st) \<longrightarrow>
      getFromCache st k = (JNull, st) \<and> setToCache st k v = st \<and> invalidateCache st = st"
  using invalidateCache_keys_fault [of st] invalidateCache_del_fault [of st]
  by (auto simp: getFromCache_def setToCache_def redis_get_def redis_setEx_def
      invalidateCache_closed)

text \<open>
  C7. With the Redis server unreachable at start-up, \<open>redisClient.connect()\<close> never
  settles: \<open>startServer\<close> verifies the store at the first attempt, then stays in
  \<open>await initRedis()\<close> and never reaches \<open>app.listen\<close>. No request is accepted, so no
  CRUD operation is served from the store.
\<close>

theorem startServer_awaits_unreachable_redis:
  "startServer (\<lambda>k. Connected) RedisNeverSettles =
     (AwaitingRedis,
      \<lparr>pool_assigned = True, verified = True, attempts = 1, waited_ms = 0\<rparr>)"
proof -
  have five: "(5::nat) = Suc (Suc (Suc (Suc (Suc 0))))" by simp
  show ?thesis
    unfolding startServer_def five by (simp add: initDatabase_def initRedis_def)
qed

end
